theory Spec2Isabelle
  imports Main "HOL-Library.Multiset"
begin

section \<open>Python values and the built-ins the reconciliation uses\<close>

text \<open>
  The feed \<open>watch_remnants\<close> is a list of dictionaries read from a spreadsheet.  A cell is
  a string or an integer, and \<open>watch.get(key)\<close> is \<open>None\<close> for a missing key; these are
  the three forms of \<open>pyval\<close> (floating-point cells are not modelled).  A Python \<open>str\<close> is a
  \<open>string\<close>; a character beyond ASCII stands as its UTF-8 bytes, none of which is an
  ASCII digit, a dot or ASCII white space.
\<close>

datatype pyval = PStr string | PInt int | PNone

text \<open>The exceptions: the three that the built-ins raise here, and the one of the HTTP
  library, which only the external submission calls can raise.\<close>

datatype error = ValueError | TypeError | AttributeError | RequestException

text \<open>A feed row, with the three keys the code reads: \<open>Kod\<close> is the code column,
  \<open>Kolichestvo\<close> the quantity column and \<open>Tsena\<close> the price column.\<close>

record watch =
  Kod :: pyval
  Kolichestvo :: pyval
  Tsena :: pyval

definition is_digit :: "char \<Rightarrow> bool" where
  "is_digit c = (c \<in> set ''0123456789'')"

definition digit_value :: "char \<Rightarrow> int" where
  "digit_value c = int (length (takeWhile (\<lambda>d. d \<noteq> c) ''0123456789''))"

text \<open>\<open>str(n)\<close> for an integer: the decimal digits, with a minus sign below zero.\<close>

fun dec_nat :: "nat \<Rightarrow> string" where
  "dec_nat n = (if n < 10 then [''0123456789'' ! n]
                else dec_nat (n div 10) @ [''0123456789'' ! (n mod 10)])"

declare dec_nat.simps [simp del]

fun py_str :: "pyval \<Rightarrow> string" where
  "py_str (PStr s) = s"
| "py_str (PInt i) = (if i < 0 then CHR ''-'' # dec_nat (nat (- i)) else dec_nat (nat i))"
| "py_str PNone = ''None''"

text \<open>
  \<open>int(s)\<close> for a string.  For a string of ASCII characters (\<open>int_of_ascii\<close>): white space
  is stripped at both ends, one sign may follow, then decimal digits, where a single
  underscore may stand between two digits; anything else raises \<open>ValueError\<close>.  For a
  string with a character beyond ASCII, Python also reads the decimal digits and strips the
  white space of Unicode, by the tables of the interpreter; what it then gives is the
  parameter \<open>uni\<close>: \<open>uni s\<close> is the integer read, or \<open>None\<close> where \<open>int(s)\<close> raises
  \<open>ValueError\<close>.  Every function below that calls \<open>int\<close> takes \<open>uni\<close> as its first argument,
  and every property holds whatever \<open>uni\<close> is.  (The interpreter's optional limit on the
  number of digits is not modelled.)  \<open>int(n)\<close> for an integer is \<open>n\<close>, and \<open>int(None)\<close> raises
  \<open>TypeError\<close>.
\<close>

type_synonym unicode_int = "string \<Rightarrow> int option"

fun is_ascii :: "char \<Rightarrow> bool" where
  "is_ascii (Char b0 b1 b2 b3 b4 b5 b6 b7) = (\<not> b7)"

definition is_space :: "char \<Rightarrow> bool" where
  "is_space c = (c \<in> set [CHR 0x09, CHR 0x0A, CHR 0x0B, CHR 0x0C, CHR 0x0D, CHR 0x20])"

definition strip :: "string \<Rightarrow> string" where
  "strip s = rev (dropWhile is_space (rev (dropWhile is_space s)))"

fun digits_ok :: "string \<Rightarrow> bool" where
  "digits_ok [] = False"
| "digits_ok [c] = is_digit c"
| "digits_ok (c # d # cs) =
     (is_digit c \<and> (if d = CHR ''_'' then digits_ok cs else digits_ok (d # cs)))"

definition digits_value :: "string \<Rightarrow> int" where
  "digits_value ds = foldl (\<lambda>a c. 10 * a + digit_value c) 0 (filter (\<lambda>c. c \<noteq> CHR ''_'') ds)"

definition int_of_ascii :: "string \<Rightarrow> error + int" where
  "int_of_ascii s =
     (case strip s of
        [] \<Rightarrow> Inl ValueError
      | c # cs \<Rightarrow>
          if c = CHR ''-'' then (if digits_ok cs then Inr (- digits_value cs) else Inl ValueError)
          else if c = CHR ''+'' then (if digits_ok cs then Inr (digits_value cs) else Inl ValueError)
          else if digits_ok (c # cs) then Inr (digits_value (c # cs))
          else Inl ValueError)"

definition int_of_str :: "unicode_int \<Rightarrow> string \<Rightarrow> error + int" where
  "int_of_str uni s =
     (if list_all is_ascii s then int_of_ascii s
      else (case uni s of None \<Rightarrow> Inl ValueError | Some n \<Rightarrow> Inr n))"

fun py_int :: "unicode_int \<Rightarrow> pyval \<Rightarrow> error + int" where
  "py_int uni (PStr s) = int_of_str uni s"
| "py_int uni (PInt i) = Inr i"
| "py_int uni PNone = Inl TypeError"

section \<open>\<open>price_conversion\<close> (seller.py)\<close>

text \<open>\<open>price.split(".")\<close>: the pieces between the dots, at least one piece.\<close>

fun split_dot :: "string \<Rightarrow> string list" where
  "split_dot [] = [[]]"
| "split_dot (c # cs) =
     (if c = CHR ''.'' then [] # split_dot cs
      else (case split_dot cs of [] \<Rightarrow> [[c]] | p # ps \<Rightarrow> (c # p) # ps))"

text \<open>\<open>re.sub("[^0-9]", "", s)\<close>: every character outside \<open>0-9\<close> is deleted.\<close>

definition re_sub_non_digits :: "string \<Rightarrow> string" where
  "re_sub_non_digits s = filter is_digit s"

text \<open>\<open>return re.sub("[^0-9]", "", price.split(".")[0])\<close>.  The list of pieces is never
  empty, so the index 0 always exists.\<close>

definition price_conversion :: "string \<Rightarrow> string" where
  "price_conversion price = re_sub_non_digits (split_dot price ! 0)"

section \<open>\<open>divide\<close> (seller.py)\<close>

text \<open>The slice \<open>lst[i:j]\<close> for \<open>0 \<le> i \<le> j\<close>; Python cuts it at the end of the list.\<close>

definition slice :: "'a list \<Rightarrow> nat \<Rightarrow> nat \<Rightarrow> 'a list" where
  "slice lst i j = take (j - i) (drop i lst)"

text \<open>The loop \<open>for i in range(0, len(lst), n): yield lst[i: i + n]\<close> for a positive step,
  from the index \<open>i\<close> on.\<close>

function divide_from :: "'a list \<Rightarrow> nat \<Rightarrow> nat \<Rightarrow> 'a list list" where
  "divide_from lst n i =
     (if 0 < n \<and> i < length lst then slice lst i (i + n) # divide_from lst n (i + n) else [])"
  by pat_completeness auto
termination
  by (relation "measure (\<lambda>(lst, n, i). length lst - i)") auto

declare divide_from.simps [simp del]

text \<open>\<open>list(divide(lst, n))\<close>, as every caller consumes the generator (named \<open>divide_lst\<close>,
  since \<open>divide\<close> is the division of HOL).  \<open>range\<close> raises
  \<open>ValueError\<close> for the step 0 and is empty for a negative step.\<close>

definition divide_lst :: "'a list \<Rightarrow> int \<Rightarrow> error + 'a list list" where
  "divide_lst lst n =
     (if n = 0 then Inl ValueError
      else if n < 0 then Inr []
      else Inr (divide_from lst (nat n) 0))"

section \<open>\<open>create_stocks\<close> and \<open>create_prices\<close> of the two channels\<close>

text \<open>
  The remote SKU list \<open>offer_ids\<close> is a list of strings.  \<open>create_stocks\<close> removes from
  the list it is given (\<open>offer_ids.remove(...)\<close>, which deletes the first equal element,
  \<open>remove1\<close>); the list is the caller's object, so the model returns its final content
  next to the stock entries.
\<close>

record seller_stock =
  offer_id :: string
  stock :: int

fun seller_stocks_loop ::
  "unicode_int \<Rightarrow> watch list \<Rightarrow> seller_stock list \<Rightarrow> string list
     \<Rightarrow> error + seller_stock list \<times> string list"
where
  "seller_stocks_loop uni [] stocks offer_ids = Inr (stocks, offer_ids)"
| "seller_stocks_loop uni (watch # rest) stocks offer_ids =
     (if py_str (Kod watch) \<in> set offer_ids then
        (let count = py_str (Kolichestvo watch) in
         case (if count = ''>10'' then Inr 100
               else if count = ''1'' then Inr 0
               else py_int uni (Kolichestvo watch)) of
           Inl e \<Rightarrow> Inl e
         | Inr n \<Rightarrow>
             seller_stocks_loop uni rest
               (stocks @ [\<lparr>offer_id = py_str (Kod watch), stock = n\<rparr>])
               (remove1 (py_str (Kod watch)) offer_ids))
      else seller_stocks_loop uni rest stocks offer_ids)"

definition seller_create_stocks ::
  "unicode_int \<Rightarrow> watch list \<Rightarrow> string list \<Rightarrow> error + seller_stock list \<times> string list"
where
  "seller_create_stocks uni watch_remnants offer_ids =
     (case seller_stocks_loop uni watch_remnants [] offer_ids of
        Inl e \<Rightarrow> Inl e
      | Inr (stocks, offer_ids') \<Rightarrow>
          Inr (stocks @ map (\<lambda>rest_id. \<lparr>offer_id = rest_id, stock = 0\<rparr>) offer_ids',
               offer_ids'))"

text \<open>The market channel stamps each entry with the warehouse and with \<open>date\<close>, the clock
  reading taken once before the loop (a parameter here).\<close>

record market_item =
  item_count :: int
  item_type :: string
  updatedAt :: string

record market_stock =
  sku :: string
  warehouseId :: string
  items :: "market_item list"

fun market_stocks_loop ::
  "unicode_int \<Rightarrow> string \<Rightarrow> string \<Rightarrow> watch list \<Rightarrow> market_stock list \<Rightarrow> string list
     \<Rightarrow> error + market_stock list \<times> string list"
where
  "market_stocks_loop uni warehouse_id date [] stocks offer_ids = Inr (stocks, offer_ids)"
| "market_stocks_loop uni warehouse_id date (watch # rest) stocks offer_ids =
     (if py_str (Kod watch) \<in> set offer_ids then
        (let count = py_str (Kolichestvo watch) in
         case (if count = ''>10'' then Inr 100
               else if count = ''1'' then Inr 0
               else py_int uni (Kolichestvo watch)) of
           Inl e \<Rightarrow> Inl e
         | Inr n \<Rightarrow>
             market_stocks_loop uni warehouse_id date rest
               (stocks @ [\<lparr>sku = py_str (Kod watch), warehouseId = warehouse_id,
                           items = [\<lparr>item_count = n, item_type = ''FIT'',
                                     updatedAt = date\<rparr>]\<rparr>])
               (remove1 (py_str (Kod watch)) offer_ids))
      else market_stocks_loop uni warehouse_id date rest stocks offer_ids)"

definition market_create_stocks ::
  "unicode_int \<Rightarrow> string \<Rightarrow> watch list \<Rightarrow> string list \<Rightarrow> string
     \<Rightarrow> error + market_stock list \<times> string list"
where
  "market_create_stocks uni date watch_remnants offer_ids warehouse_id =
     (case market_stocks_loop uni warehouse_id date watch_remnants [] offer_ids of
        Inl e \<Rightarrow> Inl e
      | Inr (stocks, offer_ids') \<Rightarrow>
          Inr (stocks @ map (\<lambda>rest_id. \<lparr>sku = rest_id, warehouseId = warehouse_id,
                               items = [\<lparr>item_count = 0, item_type = ''FIT'',
                                         updatedAt = date\<rparr>]\<rparr>) offer_ids',
               offer_ids'))"

text \<open>\<open>price_conversion(watch.get(...))\<close>: the method \<open>split\<close> exists on a string only.\<close>

fun price_conversion_of :: "pyval \<Rightarrow> error + string" where
  "price_conversion_of (PStr s) = Inr (price_conversion s)"
| "price_conversion_of (PInt i) = Inl AttributeError"
| "price_conversion_of PNone = Inl AttributeError"

record seller_price =
  auto_action_enabled :: string
  currency_code :: string
  price_offer_id :: string
  old_price :: string
  price :: string

fun seller_prices_loop ::
  "watch list \<Rightarrow> seller_price list \<Rightarrow> string list \<Rightarrow> error + seller_price list"
where
  "seller_prices_loop [] prices offer_ids = Inr prices"
| "seller_prices_loop (watch # rest) prices offer_ids =
     (if py_str (Kod watch) \<in> set offer_ids then
        (case price_conversion_of (Tsena watch) of
           Inl e \<Rightarrow> Inl e
         | Inr p \<Rightarrow>
             seller_prices_loop rest
               (prices @ [\<lparr>auto_action_enabled = ''UNKNOWN'', currency_code = ''RUB'',
                           price_offer_id = py_str (Kod watch), old_price = ''0'',
                           price = p\<rparr>])
               offer_ids)
      else seller_prices_loop rest prices offer_ids)"

definition seller_create_prices :: "watch list \<Rightarrow> string list \<Rightarrow> error + seller_price list" where
  "seller_create_prices watch_remnants offer_ids = seller_prices_loop watch_remnants [] offer_ids"

record market_price =
  price_id :: string
  price_value :: int
  currencyId :: string

fun market_prices_loop ::
  "unicode_int \<Rightarrow> watch list \<Rightarrow> market_price list \<Rightarrow> string list \<Rightarrow> error + market_price list"
where
  "market_prices_loop uni [] prices offer_ids = Inr prices"
| "market_prices_loop uni (watch # rest) prices offer_ids =
     (if py_str (Kod watch) \<in> set offer_ids then
        (case price_conversion_of (Tsena watch) of
           Inl e \<Rightarrow> Inl e
         | Inr p \<Rightarrow>
             (case int_of_str uni p of
                Inl e \<Rightarrow> Inl e
              | Inr v \<Rightarrow>
                  market_prices_loop uni rest
                    (prices @ [\<lparr>price_id = py_str (Kod watch), price_value = v,
                                currencyId = ''RUR''\<rparr>])
                    offer_ids))
      else market_prices_loop uni rest prices offer_ids)"

definition market_create_prices ::
  "unicode_int \<Rightarrow> watch list \<Rightarrow> string list \<Rightarrow> error + market_price list"
where
  "market_create_prices uni watch_remnants offer_ids =
     market_prices_loop uni watch_remnants [] offer_ids"

section \<open>The orchestration: \<open>upload_stocks\<close> and \<open>main\<close>\<close>

text \<open>
  The submission calls \<open>update_stocks\<close> and \<open>update_price\<close> are external: a parameter
  that answers or raises.  \<open>for_each\<close> is the loop \<open>for b in batches: send(b)\<close>, which
  drops the answers and stops at the first exception.  \<open>offer_ids\<close> is the list that
  \<open>get_offer_ids\<close> returned.
\<close>

fun for_each :: "('b \<Rightarrow> error + 'r) \<Rightarrow> 'b list \<Rightarrow> error + unit" where
  "for_each send [] = Inr ()"
| "for_each send (b # bs) = (case send b of Inl e \<Rightarrow> Inl e | Inr r \<Rightarrow> for_each send bs)"

definition seller_upload_stocks ::
  "unicode_int \<Rightarrow> (seller_stock list \<Rightarrow> error + 'r) \<Rightarrow> watch list \<Rightarrow> string list
     \<Rightarrow> error + seller_stock list \<times> seller_stock list"
where
  "seller_upload_stocks uni update_stocks watch_remnants offer_ids =
     (case seller_create_stocks uni watch_remnants offer_ids of
        Inl e \<Rightarrow> Inl e
      | Inr (stocks, offer_ids') \<Rightarrow>
          (case divide_lst stocks 100 of
             Inl e \<Rightarrow> Inl e
           | Inr batches \<Rightarrow>
               (case for_each update_stocks batches of
                  Inl e \<Rightarrow> Inl e
                | Inr u \<Rightarrow>
                    (let not_empty = filter (\<lambda>stock_entry. stock stock_entry \<noteq> 0) stocks
                     in Inr (not_empty, stocks)))))"

text \<open>In the market channel the test is \<open>stock.get("items")[0].get("count") != 0\<close>.  Every
  entry that \<open>create_stocks\<close> builds has exactly one item, so the index 0 exists.\<close>

definition market_upload_stocks ::
  "unicode_int \<Rightarrow> (market_stock list \<Rightarrow> error + 'r) \<Rightarrow> string \<Rightarrow> watch list
     \<Rightarrow> string list \<Rightarrow> string
     \<Rightarrow> error + market_stock list \<times> market_stock list"
where
  "market_upload_stocks uni update_stocks date watch_remnants offer_ids warehouse_id =
     (case market_create_stocks uni date watch_remnants offer_ids warehouse_id of
        Inl e \<Rightarrow> Inl e
      | Inr (stocks, offer_ids') \<Rightarrow>
          (case divide_lst stocks 2000 of
             Inl e \<Rightarrow> Inl e
           | Inr batches \<Rightarrow>
               (case for_each update_stocks batches of
                  Inl e \<Rightarrow> Inl e
                | Inr u \<Rightarrow>
                    (let not_empty =
                           filter (\<lambda>stock_entry. item_count (items stock_entry ! 0) \<noteq> 0) stocks
                     in Inr (not_empty, stocks)))))"

text \<open>
  The body of the \<open>try\<close> block of \<open>main\<close> in seller.py.  The list \<open>offer_ids\<close> that
  \<open>create_stocks\<close> worked on is the one passed to \<open>create_prices\<close>, so the model passes
  its final content.  The result is what was computed and submitted.
\<close>

definition seller_main ::
  "unicode_int \<Rightarrow> (seller_stock list \<Rightarrow> error + 'r) \<Rightarrow> (seller_price list \<Rightarrow> error + 'q)
     \<Rightarrow> watch list
     \<Rightarrow> string list \<Rightarrow> error + seller_stock list \<times> seller_price list"
where
  "seller_main uni update_stocks update_price watch_remnants offer_ids =
     (case seller_create_stocks uni watch_remnants offer_ids of
        Inl e \<Rightarrow> Inl e
      | Inr (stocks, offer_ids') \<Rightarrow>
          (case divide_lst stocks 100 of
             Inl e \<Rightarrow> Inl e
           | Inr stock_batches \<Rightarrow>
               (case for_each update_stocks stock_batches of
                  Inl e \<Rightarrow> Inl e
                | Inr u \<Rightarrow>
                    (case seller_create_prices watch_remnants offer_ids' of
                       Inl e \<Rightarrow> Inl e
                     | Inr prices \<Rightarrow>
                         (case divide_lst prices 900 of
                            Inl e \<Rightarrow> Inl e
                          | Inr price_batches \<Rightarrow>
                              (case for_each update_price price_batches of
                                 Inl e \<Rightarrow> Inl e
                               | Inr u' \<Rightarrow> Inr (stocks, prices)))))))"

section \<open>Notions used to state the properties\<close>

text \<open>
  The threshold rule in the words of the specification: the token for more than ten gives
  100, the token for one unit held back gives 0, anything else is read as an integer.  It is
  compared below with the branches that both \<open>create_stocks\<close> write out.
\<close>

definition threshold_rule :: "unicode_int \<Rightarrow> pyval \<Rightarrow> error + int" where
  "threshold_rule uni quantity =
     (if py_str quantity = ''>10'' then Inr 100
      else if py_str quantity = ''1'' then Inr 0
      else py_int uni quantity)"

text \<open>The feed records for which the membership test of the \<open>create_stocks\<close> loop succeeds,
  in feed order, and the content of the list \<open>offer_ids\<close> when the loop ends.\<close>

fun matched :: "watch list \<Rightarrow> string list \<Rightarrow> watch list" where
  "matched [] offer_ids = []"
| "matched (watch # rest) offer_ids =
     (if py_str (Kod watch) \<in> set offer_ids
      then watch # matched rest (remove1 (py_str (Kod watch)) offer_ids)
      else matched rest offer_ids)"

fun unmatched :: "watch list \<Rightarrow> string list \<Rightarrow> string list" where
  "unmatched [] offer_ids = offer_ids"
| "unmatched (watch # rest) offer_ids =
     (if py_str (Kod watch) \<in> set offer_ids
      then unmatched rest (remove1 (py_str (Kod watch)) offer_ids)
      else unmatched rest offer_ids)"

text \<open>The feed without the records whose code already occurred earlier in the feed (or
  is in \<open>seen\<close>).\<close>

fun first_occurrences :: "string list \<Rightarrow> watch list \<Rightarrow> watch list" where
  "first_occurrences seen [] = []"
| "first_occurrences seen (watch # rest) =
     (if py_str (Kod watch) \<in> set seen then first_occurrences seen rest
      else watch # first_occurrences (py_str (Kod watch) # seen) rest)"

text \<open>The market entry that carries the SKU and the count of a seller entry.\<close>

definition market_entry :: "string \<Rightarrow> string \<Rightarrow> seller_stock \<Rightarrow> market_stock" where
  "market_entry warehouse_id date s =
     \<lparr>sku = offer_id s, warehouseId = warehouse_id,
      items = [\<lparr>item_count = stock s, item_type = ''FIT'', updatedAt = date\<rparr>]\<rparr>"

section \<open>The built-ins on examples\<close>

lemmas int_eval = int_of_str_def int_of_ascii_def strip_def is_space_def is_digit_def
  digits_value_def digit_value_def

lemma py_str_examples:
  "py_str (PInt 1205) = ''1205'' \<and> py_str (PInt (- 7)) = ''-7'' \<and> py_str (PInt 0) = ''0''
   \<and> py_str PNone = ''None''"
  by (simp add: dec_nat.simps)

lemma py_int_examples:
  "py_int uni (PStr '' 15 '') = Inr 15 \<and> py_int uni (PStr ''-007'') = Inr (- 7)
   \<and> py_int uni (PStr ''1_000'') = Inr 1000 \<and> py_int uni (PStr ''1__0'') = Inl ValueError
   \<and> py_int uni (PStr ''5.0'') = Inl ValueError \<and> py_int uni (PStr []) = Inl ValueError
   \<and> py_int uni (PInt 7) = Inr 7 \<and> py_int uni PNone = Inl TypeError"
  by (simp add: int_eval)

text \<open>On a string of ASCII characters \<open>int\<close> does not depend on \<open>uni\<close>; the closed examples
  further down, whose strings are all ASCII, are stated for the \<open>uni\<close> that reads nothing.
  A quantity beyond ASCII is read as the interpreter reads it.  With the Arabic-Indic
  digit three (UTF-8 bytes \<open>D9 A3\<close>) read as 3, and the digit five followed by a no-break
  space (bytes \<open>C2 A0\<close>) read as 5, \<open>create_stocks\<close> returns the counts 3 and 5.\<close>

lemma int_of_str_ascii: "list_all is_ascii s \<Longrightarrow> int_of_str uni s = int_of_ascii s"
  by (simp add: int_of_str_def)

lemma int_of_str_beyond_ascii:
  "\<not> list_all is_ascii s \<Longrightarrow>
     int_of_str uni s = (case uni s of None \<Rightarrow> Inl ValueError | Some n \<Rightarrow> Inr n)"
  by (simp add: int_of_str_def)

lemma create_stocks_beyond_ascii_example:
  "uni [CHR 0xD9, CHR 0xA3] = Some 3 \<Longrightarrow> uni [CHR ''5'', CHR 0xC2, CHR 0xA0] = Some 5 \<Longrightarrow>
     seller_create_stocks uni
       [\<lparr>Kod = PStr ''A'', Kolichestvo = PStr [CHR 0xD9, CHR 0xA3], Tsena = PStr ''1''\<rparr>,
        \<lparr>Kod = PStr ''B'', Kolichestvo = PStr [CHR ''5'', CHR 0xC2, CHR 0xA0], Tsena = PStr ''1''\<rparr>]
       [''A'', ''B''] =
     Inr ([\<lparr>offer_id = ''A'', stock = 3\<rparr>, \<lparr>offer_id = ''B'', stock = 5\<rparr>], [])"
  by (simp add: seller_create_stocks_def int_of_str_def)

section \<open>Properties of \<open>price_conversion\<close>\<close>

lemma split_dot_first: "split_dot s \<noteq> [] \<and> split_dot s ! 0 = takeWhile (\<lambda>c. c \<noteq> CHR ''.'') s"
  by (induction s) (auto split: list.splits)

lemma is_digit_eq: "is_digit = (\<lambda>c. c \<in> set ''0123456789'')"
  by (rule ext) (simp add: is_digit_def)

text \<open>
  Claim C6.  For every input string, \<open>price_conversion\<close> returns the part before the first
  dot with every character that is not a decimal digit removed; the fraction is dropped,
  never rounded.  The price \<open>5'990.00\<close> followed by the currency word gives \<open>5990\<close>, the
  price \<open>100\<close> followed by the currency word gives \<open>100\<close>, and \<open>99.99\<close> gives \<open>99\<close>.
  (The currency word is written as its six UTF-8 bytes.)
\<close>

theorem price_conversion_digits_before_dot:
  "price_conversion s =
     filter (\<lambda>c. c \<in> set ''0123456789'') (takeWhile (\<lambda>c. c \<noteq> CHR ''.'') s)
   \<and> price_conversion (''5'990.00 '' @ [CHR 0xD1, CHR 0x80, CHR 0xD1, CHR 0x83, CHR 0xD0, CHR 0xB1] @ ''.'') = ''5990''
   \<and> price_conversion (''100 '' @ [CHR 0xD1, CHR 0x80, CHR 0xD1, CHR 0x83, CHR 0xD0, CHR 0xB1] @ ''.'') = ''100''
   \<and> price_conversion ''99.99'' = ''99''"
  by (simp add: price_conversion_def re_sub_non_digits_def split_dot_first is_digit_eq)

section \<open>Properties of \<open>divide\<close>\<close>

lemma divide_from_step:
  "divide_from lst n i =
     (if 0 < n \<and> i < length lst then take n (drop i lst) # divide_from lst n (i + n) else [])"
  by (subst divide_from.simps) (simp add: slice_def)

lemma concat_divide_from: "0 < n \<Longrightarrow> concat (divide_from lst n i) = drop i lst"
proof (induction lst n i rule: divide_from.induct)
  case (1 lst n i)
  show ?case
  proof (cases "i < length lst")
    case True
    have "concat (divide_from lst n i) = take n (drop i lst) @ drop (i + n) lst"
      using True 1 by (subst divide_from_step) simp
    also have "\<dots> = drop i lst"
      by (metis add.commute append_take_drop_id drop_drop)
    finally show ?thesis .
  next
    case False
    then show ?thesis by (subst divide_from_step) simp
  qed
qed

lemma nth_divide_from:
  "0 < n \<Longrightarrow> k < length (divide_from lst n i) \<Longrightarrow>
     divide_from lst n i ! k = take n (drop (i + k * n) lst)"
proof (induction lst n i arbitrary: k rule: divide_from.induct)
  case (1 lst n i)
  show ?case
  proof (cases "i < length lst")
    case True
    have eq: "divide_from lst n i = take n (drop i lst) # divide_from lst n (i + n)"
      using True 1(2) by (subst divide_from_step) simp
    show ?thesis
    proof (cases k)
      case 0
      then show ?thesis by (simp add: eq)
    next
      case (Suc j)
      have "j < length (divide_from lst n (i + n))"
        using 1(3) Suc by (simp add: eq)
      then have "divide_from lst n (i + n) ! j = take n (drop (i + n + j * n) lst)"
        using 1(1) True 1(2) by simp
      then show ?thesis by (simp add: eq Suc add.assoc)
    qed
  next
    case False
    then have "divide_from lst n i = []" by (subst divide_from_step) simp
    with 1(3) show ?thesis by simp
  qed
qed

lemma length_divide_from:
  "0 < n \<Longrightarrow> length (divide_from lst n i) = (length lst - i + n - 1) div n"
proof (induction lst n i rule: divide_from.induct)
  case (1 lst n i)
  show ?case
  proof (cases "i < length lst")
    case True
    define d where "d = length lst - i"
    have d: "0 < d" using True by (simp add: d_def)
    have "length (divide_from lst n i) = Suc ((length lst - (i + n) + n - 1) div n)"
      using True 1 by (subst divide_from_step) simp
    also have "(length lst - (i + n) + n - 1) div n = (d - 1) div n"
    proof (cases "n \<le> d")
      case True
      then have "length lst - (i + n) + n - 1 = d - 1" by (simp add: d_def)
      then show ?thesis by simp
    next
      case False
      then have "length lst - (i + n) + n - 1 = n - 1" "d - 1 < n" by (simp_all add: d_def)
      then show ?thesis using 1(2) by simp
    qed
    also have "Suc ((d - 1) div n) = (d - 1 + n) div n"
      using 1(2) div_add_self2 [of n "d - 1"] by simp
    also have "d - 1 + n = length lst - i + n - 1"
      using d by (simp add: d_def)
    finally show ?thesis .
  next
    case False
    then show ?thesis using 1(2) by (subst divide_from_step) simp
  qed
qed

lemma divide_from_nonempty: "b \<in> set (divide_from lst n i) \<Longrightarrow> b \<noteq> [] \<and> length b \<le> n"
proof (induction lst n i rule: divide_from.induct)
  case (1 lst n i)
  show ?case
  proof (cases "0 < n \<and> i < length lst")
    case True
    then have "b = take n (drop i lst) \<or> b \<in> set (divide_from lst n (i + n))"
      using 1(2) by (subst (asm) divide_from_step) simp
    then show ?thesis
      using True 1(1) by auto
  next
    case False
    then have "divide_from lst n i = []" by (subst divide_from_step) auto
    with 1(2) show ?thesis by simp
  qed
qed

lemma divide_from_full:
  "Suc k < length (divide_from lst n i) \<Longrightarrow> length (divide_from lst n i ! k) = n"
proof (induction lst n i arbitrary: k rule: divide_from.induct)
  case (1 lst n i)
  show ?case
  proof (cases "0 < n \<and> i < length lst")
    case True
    have eq: "divide_from lst n i = take n (drop i lst) # divide_from lst n (i + n)"
      using True by (subst divide_from_step) simp
    show ?thesis
    proof (cases k)
      case 0
      then have "divide_from lst n (i + n) \<noteq> []"
        using 1(2) by (auto simp: eq)
      then have "i + n < length lst"
        by (subst (asm) divide_from_step) (simp split: if_splits)
      then show ?thesis by (simp add: eq 0)
    next
      case (Suc j)
      then have "Suc j < length (divide_from lst n (i + n))"
        using 1(2) by (simp add: eq)
      then show ?thesis
        using 1(1) True by (simp add: eq Suc)
    qed
  next
    case False
    then have "divide_from lst n i = []" by (subst divide_from_step) auto
    with 1(2) show ?thesis by simp
  qed
qed

text \<open>
  Claim C8.  For every list and every positive \<open>n\<close>, \<open>divide\<close> yields, in order, the
  contiguous slices \<open>lst[0:n]\<close>, \<open>lst[n:2n]\<close>, ...: the \<open>k\<close>-th batch is the slice that
  starts at \<open>k * n\<close>, there are as many batches as the length divided by \<open>n\<close> rounded up,
  every batch but possibly the last has exactly \<open>n\<close> elements, every batch has between one
  and \<open>n\<close> elements, and the batches concatenated give the list back.  The empty list gives
  no batch, and a non-empty list of at most \<open>n\<close> elements gives the list as the only batch.
\<close>

theorem divide_contiguous_slices:
  assumes "0 < n"
  shows "\<exists>bs. divide_lst lst n = Inr bs
           \<and> concat bs = lst
           \<and> length bs = (length lst + nat n - 1) div nat n
           \<and> (\<forall>k < length bs. bs ! k = take (nat n) (drop (k * nat n) lst))
           \<and> (\<forall>b \<in> set bs. b \<noteq> [] \<and> length b \<le> nat n)
           \<and> (\<forall>k. Suc k < length bs \<longrightarrow> length (bs ! k) = nat n)
           \<and> (lst = [] \<longrightarrow> bs = [])
           \<and> (lst \<noteq> [] \<and> int (length lst) \<le> n \<longrightarrow> bs = [lst])"
proof -
  let ?m = "nat n"
  let ?bs = "divide_from lst ?m 0"
  have m: "0 < ?m" using assms by simp
  have d: "divide_lst lst n = Inr ?bs" using assms by (simp add: divide_lst_def)
  have c: "concat ?bs = lst" using concat_divide_from [OF m, of lst 0] by simp
  have l: "length ?bs = (length lst + ?m - 1) div ?m"
    using length_divide_from [OF m, of lst 0] by simp
  have n: "\<forall>k < length ?bs. ?bs ! k = take ?m (drop (k * ?m) lst)"
    using nth_divide_from [OF m, of _ lst 0] by simp
  have b: "\<forall>b \<in> set ?bs. b \<noteq> [] \<and> length b \<le> ?m"
    using divide_from_nonempty by blast
  have f: "\<forall>k. Suc k < length ?bs \<longrightarrow> length (?bs ! k) = ?m"
    using divide_from_full by blast
  have e: "lst = [] \<longrightarrow> ?bs = []"
    by (subst divide_from_step) simp
  have s: "lst \<noteq> [] \<and> int (length lst) \<le> n \<longrightarrow> ?bs = [lst]"
  proof
    assume a: "lst \<noteq> [] \<and> int (length lst) \<le> n"
    then have le: "length lst \<le> ?m" by linarith
    have "?bs = take ?m (drop 0 lst) # divide_from lst ?m (0 + ?m)"
      using a m by (subst divide_from_step) simp
    moreover have "divide_from lst ?m (0 + ?m) = []"
      using le by (subst divide_from_step) simp
    ultimately show "?bs = [lst]" using le by simp
  qed
  show ?thesis using d c l n b f e s by blast
qed

text \<open>The list \<open>[1, 2, 3, 4, 5]\<close> in batches of two: \<open>[[1, 2], [3, 4], [5]]\<close>.\<close>

theorem divide_contiguous_slices_witness:
  "(0::int) < 2 \<and> divide_lst [1, 2, 3, 4, 5 :: int] 2 = Inr [[1, 2], [3, 4], [5]]
   \<and> concat [[1, 2], [3, 4], [5 :: int]] = [1, 2, 3, 4, 5]"
proof -
  have h: "(0::int) < 2" by simp
  obtain bs where bs: "divide_lst [1, 2, 3, 4, 5 :: int] 2 = Inr bs" "concat bs = [1, 2, 3, 4, 5]"
    using divide_contiguous_slices [OF h, of "[1, 2, 3, 4, 5 :: int]"] by blast
  have "divide_lst [1, 2, 3, 4, 5 :: int] 2 = Inr [[1, 2], [3, 4], [5]]"
    by (simp add: divide_lst_def divide_from_step)
  with bs h show ?thesis by simp
qed

section \<open>The two \<open>create_stocks\<close> loops\<close>

lemma seller_stocks_loop_step:
  "seller_stocks_loop uni (w # ws) stocks ids =
     (if py_str (Kod w) \<in> set ids then
        (case threshold_rule uni (Kolichestvo w) of
           Inl e \<Rightarrow> Inl e
         | Inr n \<Rightarrow> seller_stocks_loop uni ws (stocks @ [\<lparr>offer_id = py_str (Kod w), stock = n\<rparr>])
                      (remove1 (py_str (Kod w)) ids))
      else seller_stocks_loop uni ws stocks ids)"
  by (simp add: threshold_rule_def Let_def)

lemma market_stocks_loop_step:
  "market_stocks_loop uni wh date (w # ws) stocks ids =
     (if py_str (Kod w) \<in> set ids then
        (case threshold_rule uni (Kolichestvo w) of
           Inl e \<Rightarrow> Inl e
         | Inr n \<Rightarrow> market_stocks_loop uni wh date ws
                      (stocks @ [market_entry wh date \<lparr>offer_id = py_str (Kod w), stock = n\<rparr>])
                      (remove1 (py_str (Kod w)) ids))
      else market_stocks_loop uni wh date ws stocks ids)"
  by (simp add: threshold_rule_def Let_def market_entry_def split: sum.splits)

lemmas stocks_loop_simps = seller_stocks_loop.simps(2) market_stocks_loop.simps(2)

lemma market_stocks_loop_seller:
  "market_stocks_loop uni wh date feed (map (market_entry wh date) acc) ids =
     (case seller_stocks_loop uni feed acc ids of
        Inl e \<Rightarrow> Inl e
      | Inr (stocks, rest) \<Rightarrow> Inr (map (market_entry wh date) stocks, rest))"
proof (induction feed arbitrary: acc ids)
  case Nil
  show ?case by simp
next
  case (Cons w ws)
  have "\<And>n. market_stocks_loop uni wh date ws
               (map (market_entry wh date) acc @
                [market_entry wh date \<lparr>offer_id = py_str (Kod w), stock = n\<rparr>])
               (remove1 (py_str (Kod w)) ids) =
             (case seller_stocks_loop uni ws (acc @ [\<lparr>offer_id = py_str (Kod w), stock = n\<rparr>])
                     (remove1 (py_str (Kod w)) ids) of
                Inl e \<Rightarrow> Inl e
              | Inr (stocks, rest) \<Rightarrow> Inr (map (market_entry wh date) stocks, rest))"
    using Cons.IH [of "acc @ [\<lparr>offer_id = py_str (Kod w), stock = _\<rparr>]"] by simp
  then show ?case
    by (simp add: seller_stocks_loop_step market_stocks_loop_step Cons.IH
        del: stocks_loop_simps split: sum.splits)
qed

lemma market_create_stocks_seller:
  "market_create_stocks uni date feed ids wh =
     (case seller_create_stocks uni feed ids of
        Inl e \<Rightarrow> Inl e
      | Inr (stocks, rest) \<Rightarrow> Inr (map (market_entry wh date) stocks, rest))"
proof -
  have z: "\<And>rest. map (\<lambda>rest_id. \<lparr>sku = rest_id, warehouseId = wh,
                       items = [\<lparr>item_count = 0, item_type = ''FIT'', updatedAt = date\<rparr>]\<rparr>) rest =
                 map (market_entry wh date) (map (\<lambda>rest_id. \<lparr>offer_id = rest_id, stock = 0\<rparr>) rest)"
    by (simp add: market_entry_def)
  show ?thesis
    using market_stocks_loop_seller [of uni wh date feed "[]" ids]
    by (simp add: market_create_stocks_def seller_create_stocks_def z
        split: sum.splits prod.splits)
qed

lemma seller_stocks_loop_Inr:
  "seller_stocks_loop uni feed acc ids = Inr (stocks, rest) \<Longrightarrow>
     rest = unmatched feed ids
     \<and> stocks = acc @ drop (length acc) stocks
     \<and> list_all2 (\<lambda>w s. offer_id s = py_str (Kod w) \<and> threshold_rule uni (Kolichestvo w) = Inr (stock s))
          (matched feed ids) (drop (length acc) stocks)"
proof (induction feed arbitrary: acc ids)
  case Nil
  then show ?case by simp
next
  case (Cons w ws)
  show ?case
  proof (cases "py_str (Kod w) \<in> set ids")
    case False
    then show ?thesis
      using Cons by (simp add: seller_stocks_loop_step del: stocks_loop_simps)
  next
    case True
    then obtain n where n: "threshold_rule uni (Kolichestvo w) = Inr n"
      and loop: "seller_stocks_loop uni ws (acc @ [\<lparr>offer_id = py_str (Kod w), stock = n\<rparr>])
                   (remove1 (py_str (Kod w)) ids) = Inr (stocks, rest)"
      using Cons.prems
      by (auto simp: seller_stocks_loop_step simp del: stocks_loop_simps split: sum.splits)
    let ?e = "\<lparr>offer_id = py_str (Kod w), stock = n\<rparr>"
    let ?tl = "drop (Suc (length acc)) stocks"
    note ih = Cons.IH [OF loop]
    have st: "stocks = acc @ ?e # ?tl"
      using ih by simp
    have dr: "drop (length acc) stocks = ?e # ?tl"
      by (subst st) simp
    show ?thesis
      using True n ih dr st by simp
  qed
qed

lemma mset_matched_unmatched:
  "mset (map (\<lambda>w. py_str (Kod w)) (matched feed ids)) + mset (unmatched feed ids) = mset ids"
  by (induction feed arbitrary: ids) simp_all

lemma seller_stocks_loop_total:
  "(\<And>w. w \<in> set feed \<Longrightarrow> py_str (Kod w) \<in> set ids \<Longrightarrow> \<exists>n. threshold_rule uni (Kolichestvo w) = Inr n)
   \<Longrightarrow> \<exists>stocks rest. seller_stocks_loop uni feed acc ids = Inr (stocks, rest)"
proof (induction feed arbitrary: acc ids)
  case Nil
  show ?case by simp
next
  case (Cons w ws)
  show ?case
  proof (cases "py_str (Kod w) \<in> set ids")
    case False
    then show ?thesis
      using Cons.IH [of ids acc] Cons.prems
      by (simp add: seller_stocks_loop_step del: stocks_loop_simps)
  next
    case True
    then obtain n where n: "threshold_rule uni (Kolichestvo w) = Inr n"
      using Cons.prems by auto
    have "\<And>v. v \<in> set ws \<Longrightarrow> py_str (Kod v) \<in> set (remove1 (py_str (Kod w)) ids)
            \<Longrightarrow> \<exists>n. threshold_rule uni (Kolichestvo v) = Inr n"
      using Cons.prems notin_set_remove1 by fastforce
    from Cons.IH [OF this] show ?thesis
      using True n by (simp add: seller_stocks_loop_step del: stocks_loop_simps)
  qed
qed

lemma seller_create_stocks_Inr:
  assumes "seller_create_stocks uni feed ids = Inr (stocks, rest)"
  shows "rest = unmatched feed ids"
    and "list_all2 (\<lambda>w s. offer_id s = py_str (Kod w) \<and> threshold_rule uni (Kolichestvo w) = Inr (stock s))
           (matched feed ids) (take (length (matched feed ids)) stocks)"
    and "drop (length (matched feed ids)) stocks = map (\<lambda>rest_id. \<lparr>offer_id = rest_id, stock = 0\<rparr>) rest"
    and "map offer_id stocks = map (\<lambda>w. py_str (Kod w)) (matched feed ids) @ rest"
proof -
  obtain st where loop: "seller_stocks_loop uni feed [] ids = Inr (st, rest)"
    and stocks: "stocks = st @ map (\<lambda>rest_id. \<lparr>offer_id = rest_id, stock = 0\<rparr>) rest"
    using assms by (auto simp: seller_create_stocks_def split: sum.splits)
  from seller_stocks_loop_Inr [OF loop]
  have r: "rest = unmatched feed ids"
    and l: "list_all2 (\<lambda>w s. offer_id s = py_str (Kod w) \<and> threshold_rule uni (Kolichestvo w) = Inr (stock s))
           (matched feed ids) st"
    by simp_all
  have len: "length (matched feed ids) = length st"
    using l by (rule list_all2_lengthD)
  show "rest = unmatched feed ids" by (rule r)
  show "list_all2 (\<lambda>w s. offer_id s = py_str (Kod w) \<and> threshold_rule uni (Kolichestvo w) = Inr (stock s))
           (matched feed ids) (take (length (matched feed ids)) stocks)"
    using l len by (simp add: stocks)
  show "drop (length (matched feed ids)) stocks = map (\<lambda>rest_id. \<lparr>offer_id = rest_id, stock = 0\<rparr>) rest"
    using len by (simp add: stocks)
  have "map offer_id st = map (\<lambda>w. py_str (Kod w)) (matched feed ids)"
    using l by (induction rule: list_all2_induct) simp_all
  then show "map offer_id stocks = map (\<lambda>w. py_str (Kod w)) (matched feed ids) @ rest"
    by (simp add: stocks comp_def)
qed

lemma seller_create_stocks_total:
  assumes "\<And>w. w \<in> set feed \<Longrightarrow> py_str (Kod w) \<in> set ids \<Longrightarrow> \<exists>n. threshold_rule uni (Kolichestvo w) = Inr n"
  shows "\<exists>stocks rest. seller_create_stocks uni feed ids = Inr (stocks, rest)"
  using seller_stocks_loop_total [of feed ids uni "[]", OF assms]
  by (auto simp: seller_create_stocks_def)

lemma seller_create_stocks_mset:
  assumes "seller_create_stocks uni feed ids = Inr (stocks, rest)"
  shows "mset (map offer_id stocks) = mset ids"
  using seller_create_stocks_Inr(1,4) [OF assms] mset_matched_unmatched [of feed ids]
  by simp

lemma sku_market_entry: "map sku (map (market_entry wh date) stocks) = map offer_id stocks"
  by (simp add: market_entry_def comp_def)

section \<open>Coverage of the remote SKU list by the stock entries\<close>

text \<open>
  Claim C1.  For every feed in which the quantity of each record whose code is in the
  remote list is \<open>>10\<close>, \<open>1\<close> or readable by \<open>int\<close>, and for every remote SKU list without
  duplicates, \<open>create_stocks\<close> returns, in both channels, exactly as many stock entries as
  there are remote SKUs; the set of their SKUs (\<open>offer_id\<close> in seller, \<open>sku\<close> in market) is the
  set of the remote SKUs as they were at the call, and no SKU occurs twice.
\<close>

theorem create_stocks_covers_offer_ids:
  assumes "distinct offer_ids"
    and "\<forall>w \<in> set watch_remnants. py_str (Kod w) \<in> set offer_ids \<longrightarrow>
           py_str (Kolichestvo w) = ''>10'' \<or> py_str (Kolichestvo w) = ''1''
           \<or> (\<exists>n. py_int uni (Kolichestvo w) = Inr n)"
  shows "\<exists>stocks rest mstocks.
           seller_create_stocks uni watch_remnants offer_ids = Inr (stocks, rest)
           \<and> length stocks = length offer_ids
           \<and> set (map offer_id stocks) = set offer_ids
           \<and> distinct (map offer_id stocks)
           \<and> market_create_stocks uni date watch_remnants offer_ids warehouse_id = Inr (mstocks, rest)
           \<and> length mstocks = length offer_ids
           \<and> set (map sku mstocks) = set offer_ids
           \<and> distinct (map sku mstocks)"
proof -
  have ok: "\<And>w. w \<in> set watch_remnants \<Longrightarrow> py_str (Kod w) \<in> set offer_ids
              \<Longrightarrow> \<exists>n. threshold_rule uni (Kolichestvo w) = Inr n"
    using assms(2) by (auto simp: threshold_rule_def)
  obtain stocks rest where s: "seller_create_stocks uni watch_remnants offer_ids = Inr (stocks, rest)"
    using seller_create_stocks_total [OF ok] by blast
  have m: "mset (map offer_id stocks) = mset offer_ids"
    by (rule seller_create_stocks_mset [OF s])
  have len: "length stocks = length offer_ids"
    using m by (metis length_map size_mset)
  have st: "set (map offer_id stocks) = set offer_ids"
    using m by (rule mset_eq_setD)
  have di: "distinct (map offer_id stocks)"
    using m assms(1) by (metis mset_eq_imp_distinct_iff)
  let ?ms = "map (market_entry warehouse_id date) stocks"
  have ms: "market_create_stocks uni date watch_remnants offer_ids warehouse_id = Inr (?ms, rest)"
    by (simp add: market_create_stocks_seller s)
  have msk: "map sku ?ms = map offer_id stocks"
    by (rule sku_market_entry)
  have mlen: "length ?ms = length offer_ids"
    using len by simp
  have mst: "set (map sku ?ms) = set offer_ids"
    unfolding msk by (rule st)
  have mdi: "distinct (map sku ?ms)"
    unfolding msk by (rule di)
  from s len st di ms mlen mst mdi show ?thesis by blast
qed

text \<open>The feed \<open>A1\<close> (more than ten), \<open>A2\<close> (one unit) against the remote list \<open>A1\<close>, \<open>A3\<close>.\<close>

theorem create_stocks_covers_offer_ids_witness:
  "distinct [''A1'', ''A3'']
   \<and> (\<exists>stocks rest mstocks.
         seller_create_stocks (\<lambda>s. None)
           [\<lparr>Kod = PStr ''A1'', Kolichestvo = PStr ''>10'', Tsena = PStr ''100.00 x''\<rparr>,
            \<lparr>Kod = PStr ''A2'', Kolichestvo = PStr ''1'', Tsena = PStr ''50.00 x''\<rparr>]
           [''A1'', ''A3''] = Inr (stocks, rest)
         \<and> length stocks = length [''A1'', ''A3'']
         \<and> set (map offer_id stocks) = set [''A1'', ''A3'']
         \<and> distinct (map offer_id stocks)
         \<and> market_create_stocks (\<lambda>s. None) ''2026-01-01T00:00:00Z''
             [\<lparr>Kod = PStr ''A1'', Kolichestvo = PStr ''>10'', Tsena = PStr ''100.00 x''\<rparr>,
              \<lparr>Kod = PStr ''A2'', Kolichestvo = PStr ''1'', Tsena = PStr ''50.00 x''\<rparr>]
             [''A1'', ''A3''] ''W1'' = Inr (mstocks, rest)
         \<and> length mstocks = length [''A1'', ''A3'']
         \<and> set (map sku mstocks) = set [''A1'', ''A3'']
         \<and> distinct (map sku mstocks))"
proof -
  let ?feed = "[\<lparr>Kod = PStr ''A1'', Kolichestvo = PStr ''>10'', Tsena = PStr ''100.00 x''\<rparr>,
                \<lparr>Kod = PStr ''A2'', Kolichestvo = PStr ''1'', Tsena = PStr ''50.00 x''\<rparr>]"
  have h1: "distinct [''A1'', ''A3'']" by simp
  have h2: "\<forall>w \<in> set ?feed. py_str (Kod w) \<in> set [''A1'', ''A3''] \<longrightarrow>
              py_str (Kolichestvo w) = ''>10'' \<or> py_str (Kolichestvo w) = ''1''
              \<or> (\<exists>n. py_int (\<lambda>s. None) (Kolichestvo w) = Inr n)"
    by simp
  show ?thesis
    using h1 create_stocks_covers_offer_ids [OF h1 h2, of "''2026-01-01T00:00:00Z''" "''W1''"]
    by blast
qed

section \<open>The threshold rule\<close>

text \<open>
  Claim C5.  For every feed record matched to a remote SKU the stock count is computed by
  the threshold rule: whenever \<open>create_stocks\<close> returns, the entries at the front of its
  result are those of the matched records, in order, each with the record's code and the
  count the rule gives for its quantity.  The market channel computes the same entries
  (same SKUs, same counts, same final list, same exception), wrapped in its own schema.
  The rule maps \<open>>10\<close> to 100, \<open>1\<close> to 0, \<open>7\<close> to 7, \<open>0\<close> to 0 and \<open>15\<close> to 15.
\<close>

theorem stock_count_threshold_rule:
  "(seller_create_stocks uni watch_remnants offer_ids = Inr (stocks, rest) \<longrightarrow>
      list_all2 (\<lambda>w s. offer_id s = py_str (Kod w)
                        \<and> threshold_rule uni (Kolichestvo w) = Inr (stock s))
        (matched watch_remnants offer_ids)
        (take (length (matched watch_remnants offer_ids)) stocks))
   \<and> market_create_stocks uni date watch_remnants offer_ids warehouse_id =
       (case seller_create_stocks uni watch_remnants offer_ids of
          Inl e \<Rightarrow> Inl e
        | Inr (stocks, rest) \<Rightarrow> Inr (map (market_entry warehouse_id date) stocks, rest))
   \<and> threshold_rule uni (PStr ''>10'') = Inr 100
   \<and> threshold_rule uni (PStr ''1'') = Inr 0
   \<and> threshold_rule uni (PStr ''7'') = Inr 7
   \<and> threshold_rule uni (PStr ''0'') = Inr 0
   \<and> threshold_rule uni (PStr ''15'') = Inr 15"
proof -
  have "threshold_rule uni (PStr ''>10'') = Inr 100" "threshold_rule uni (PStr ''1'') = Inr 0"
    "threshold_rule uni (PStr ''7'') = Inr 7" "threshold_rule uni (PStr ''0'') = Inr 0"
    "threshold_rule uni (PStr ''15'') = Inr 15"
    by (simp_all add: threshold_rule_def int_eval)
  then show ?thesis
    using seller_create_stocks_Inr(2) [of uni watch_remnants offer_ids stocks rest]
      market_create_stocks_seller [of uni date watch_remnants offer_ids warehouse_id]
    by simp
qed

text \<open>Five records with the quantities of the claim, all matched: both channels give the
  counts 100, 0, 7, 0, 15.\<close>

theorem stock_count_threshold_rule_witness:
  "seller_create_stocks (\<lambda>s. None)
     [\<lparr>Kod = PStr ''A'', Kolichestvo = PStr ''>10'', Tsena = PStr ''1''\<rparr>,
      \<lparr>Kod = PStr ''B'', Kolichestvo = PStr ''1'', Tsena = PStr ''1''\<rparr>,
      \<lparr>Kod = PStr ''C'', Kolichestvo = PStr ''7'', Tsena = PStr ''1''\<rparr>,
      \<lparr>Kod = PStr ''D'', Kolichestvo = PStr ''0'', Tsena = PStr ''1''\<rparr>,
      \<lparr>Kod = PStr ''E'', Kolichestvo = PStr ''15'', Tsena = PStr ''1''\<rparr>]
     [''E'', ''D'', ''C'', ''B'', ''A''] =
   Inr ([\<lparr>offer_id = ''A'', stock = 100\<rparr>, \<lparr>offer_id = ''B'', stock = 0\<rparr>,
         \<lparr>offer_id = ''C'', stock = 7\<rparr>, \<lparr>offer_id = ''D'', stock = 0\<rparr>,
         \<lparr>offer_id = ''E'', stock = 15\<rparr>], [])
   \<and> market_create_stocks (\<lambda>s. None) ''T''
     [\<lparr>Kod = PStr ''A'', Kolichestvo = PStr ''>10'', Tsena = PStr ''1''\<rparr>,
      \<lparr>Kod = PStr ''B'', Kolichestvo = PStr ''1'', Tsena = PStr ''1''\<rparr>,
      \<lparr>Kod = PStr ''C'', Kolichestvo = PStr ''7'', Tsena = PStr ''1''\<rparr>,
      \<lparr>Kod = PStr ''D'', Kolichestvo = PStr ''0'', Tsena = PStr ''1''\<rparr>,
      \<lparr>Kod = PStr ''E'', Kolichestvo = PStr ''15'', Tsena = PStr ''1''\<rparr>]
     [''E'', ''D'', ''C'', ''B'', ''A''] ''W'' =
   Inr (map (market_entry ''W'' ''T'')
         [\<lparr>offer_id = ''A'', stock = 100\<rparr>, \<lparr>offer_id = ''B'', stock = 0\<rparr>,
          \<lparr>offer_id = ''C'', stock = 7\<rparr>, \<lparr>offer_id = ''D'', stock = 0\<rparr>,
          \<lparr>offer_id = ''E'', stock = 15\<rparr>], [])
   \<and> list_all2 (\<lambda>w s. offer_id s = py_str (Kod w)
                        \<and> threshold_rule (\<lambda>s. None) (Kolichestvo w) = Inr (stock s))
        [\<lparr>Kod = PStr ''A'', Kolichestvo = PStr ''>10'', Tsena = PStr ''1''\<rparr>,
         \<lparr>Kod = PStr ''B'', Kolichestvo = PStr ''1'', Tsena = PStr ''1''\<rparr>,
         \<lparr>Kod = PStr ''C'', Kolichestvo = PStr ''7'', Tsena = PStr ''1''\<rparr>,
         \<lparr>Kod = PStr ''D'', Kolichestvo = PStr ''0'', Tsena = PStr ''1''\<rparr>,
         \<lparr>Kod = PStr ''E'', Kolichestvo = PStr ''15'', Tsena = PStr ''1''\<rparr>]
        [\<lparr>offer_id = ''A'', stock = 100\<rparr>, \<lparr>offer_id = ''B'', stock = 0\<rparr>,
         \<lparr>offer_id = ''C'', stock = 7\<rparr>, \<lparr>offer_id = ''D'', stock = 0\<rparr>,
         \<lparr>offer_id = ''E'', stock = 15\<rparr>]"
proof -
  let ?feed = "[\<lparr>Kod = PStr ''A'', Kolichestvo = PStr ''>10'', Tsena = PStr ''1''\<rparr>,
      \<lparr>Kod = PStr ''B'', Kolichestvo = PStr ''1'', Tsena = PStr ''1''\<rparr>,
      \<lparr>Kod = PStr ''C'', Kolichestvo = PStr ''7'', Tsena = PStr ''1''\<rparr>,
      \<lparr>Kod = PStr ''D'', Kolichestvo = PStr ''0'', Tsena = PStr ''1''\<rparr>,
      \<lparr>Kod = PStr ''E'', Kolichestvo = PStr ''15'', Tsena = PStr ''1''\<rparr>]"
  let ?ids = "[''E'', ''D'', ''C'', ''B'', ''A'']"
  let ?stocks = "[\<lparr>offer_id = ''A'', stock = 100\<rparr>, \<lparr>offer_id = ''B'', stock = 0\<rparr>,
         \<lparr>offer_id = ''C'', stock = 7\<rparr>, \<lparr>offer_id = ''D'', stock = 0\<rparr>,
         \<lparr>offer_id = ''E'', stock = 15\<rparr>]"
  have s: "seller_create_stocks (\<lambda>s. None) ?feed ?ids = Inr (?stocks, [])"
    by (simp add: seller_create_stocks_def int_eval)
  have m: "matched ?feed ?ids = ?feed"
    by simp
  show ?thesis
    using stock_count_threshold_rule [of "\<lambda>s. None" ?feed ?ids ?stocks "[]" "''T''" "''W''"] s m
    by simp
qed

section \<open>Duplicate codes in the feed\<close>

lemma first_occurrences_unseen:
  "w \<in> set (first_occurrences seen feed) \<Longrightarrow> py_str (Kod w) \<notin> set seen"
proof (induction feed arbitrary: seen)
  case Nil
  then show ?case by simp
next
  case (Cons v vs)
  show ?case
  proof (cases "py_str (Kod v) \<in> set seen")
    case True
    then show ?thesis using Cons by simp
  next
    case False
    then have "w = v \<or> w \<in> set (first_occurrences (py_str (Kod v) # seen) vs)"
      using Cons.prems by simp
    then show ?thesis
      using False Cons.IH [of "py_str (Kod v) # seen"] by auto
  qed
qed

lemma matched_first_occurrences:
  "distinct ids \<Longrightarrow> set seen \<inter> set ids = {} \<Longrightarrow>
     matched feed ids = filter (\<lambda>w. py_str (Kod w) \<in> set ids) (first_occurrences seen feed)"
proof (induction feed arbitrary: ids seen)
  case Nil
  show ?case by simp
next
  case (Cons w ws)
  let ?c = "py_str (Kod w)"
  show ?case
  proof (cases "?c \<in> set ids")
    case True
    then have unseen: "?c \<notin> set seen" using Cons.prems(2) by auto
    have d: "distinct (remove1 ?c ids)" using Cons.prems(1) by simp
    have s: "set (remove1 ?c ids) = set ids - {?c}" using Cons.prems(1) by simp
    have disj: "set (?c # seen) \<inter> set (remove1 ?c ids) = {}"
      using Cons.prems(2) s by auto
    have "matched ws (remove1 ?c ids) =
            filter (\<lambda>v. py_str (Kod v) \<in> set (remove1 ?c ids)) (first_occurrences (?c # seen) ws)"
      by (rule Cons.IH [OF d disj])
    also have "\<dots> = filter (\<lambda>v. py_str (Kod v) \<in> set ids) (first_occurrences (?c # seen) ws)"
      by (rule filter_cong [OF refl]) (use first_occurrences_unseen s in fastforce)
    finally show ?thesis using True unseen by simp
  next
    case False
    have disj: "set (?c # seen) \<inter> set ids = {}"
      using Cons.prems(2) False by auto
    show ?thesis
      using False Cons.IH [OF Cons.prems(1) disj] Cons.IH [OF Cons.prems] by simp
  qed
qed

lemma seller_prices_loop_skus:
  "seller_prices_loop feed acc ids = Inr ps \<Longrightarrow>
     map price_offer_id ps =
       map price_offer_id acc @ filter (\<lambda>c. c \<in> set ids) (map (\<lambda>w. py_str (Kod w)) feed)"
  by (induction feed arbitrary: acc) (auto split: if_splits sum.splits)

lemma market_prices_loop_skus:
  "market_prices_loop uni feed acc ids = Inr ps \<Longrightarrow>
     map price_id ps =
       map price_id acc @ filter (\<lambda>c. c \<in> set ids) (map (\<lambda>w. py_str (Kod w)) feed)"
  by (induction feed arbitrary: acc) (auto split: if_splits sum.splits)

text \<open>
  Claim C4, as amended.  With a remote SKU list without duplicates, the records that
  \<open>create_stocks\<close> matches are exactly the first occurrences of the codes that are in the
  list: each of them alone produces a stock entry, with its own quantity, every later
  record with the same code is skipped, and the remaining entries are the zero entries of
  the SKUs left over; the market channel does the same.  \<open>create_prices\<close> removes nothing:
  in both channels it gives one price entry for every feed record whose code is in the list
  it is given, duplicates included, in feed order.
\<close>

theorem first_occurrence_wins_in_stocks_only:
  assumes "distinct offer_ids"
  shows "matched watch_remnants offer_ids =
           filter (\<lambda>w. py_str (Kod w) \<in> set offer_ids) (first_occurrences [] watch_remnants)
   \<and> (\<forall>stocks rest. seller_create_stocks uni watch_remnants offer_ids = Inr (stocks, rest) \<longrightarrow>
         list_all2 (\<lambda>w s. offer_id s = py_str (Kod w)
                          \<and> threshold_rule uni (Kolichestvo w) = Inr (stock s))
           (matched watch_remnants offer_ids)
           (take (length (matched watch_remnants offer_ids)) stocks)
         \<and> drop (length (matched watch_remnants offer_ids)) stocks =
             map (\<lambda>rest_id. \<lparr>offer_id = rest_id, stock = 0\<rparr>) rest
         \<and> market_create_stocks uni date watch_remnants offer_ids warehouse_id =
             Inr (map (market_entry warehouse_id date) stocks, rest))
   \<and> (\<forall>prices. seller_create_prices watch_remnants offer_ids = Inr prices \<longrightarrow>
         map price_offer_id prices =
           filter (\<lambda>c. c \<in> set offer_ids) (map (\<lambda>w. py_str (Kod w)) watch_remnants))
   \<and> (\<forall>prices. market_create_prices uni watch_remnants offer_ids = Inr prices \<longrightarrow>
         map price_id prices =
           filter (\<lambda>c. c \<in> set offer_ids) (map (\<lambda>w. py_str (Kod w)) watch_remnants))"
proof -
  have a: "matched watch_remnants offer_ids =
           filter (\<lambda>w. py_str (Kod w) \<in> set offer_ids) (first_occurrences [] watch_remnants)"
    using matched_first_occurrences [OF assms, of "[]" watch_remnants] by simp
  have b: "\<forall>stocks rest. seller_create_stocks uni watch_remnants offer_ids = Inr (stocks, rest) \<longrightarrow>
         list_all2 (\<lambda>w s. offer_id s = py_str (Kod w)
                          \<and> threshold_rule uni (Kolichestvo w) = Inr (stock s))
           (matched watch_remnants offer_ids)
           (take (length (matched watch_remnants offer_ids)) stocks)
         \<and> drop (length (matched watch_remnants offer_ids)) stocks =
             map (\<lambda>rest_id. \<lparr>offer_id = rest_id, stock = 0\<rparr>) rest
         \<and> market_create_stocks uni date watch_remnants offer_ids warehouse_id =
             Inr (map (market_entry warehouse_id date) stocks, rest)"
    using seller_create_stocks_Inr(2,3) market_create_stocks_seller [of uni date watch_remnants offer_ids warehouse_id]
    by auto
  have c: "\<forall>prices. seller_create_prices watch_remnants offer_ids = Inr prices \<longrightarrow>
         map price_offer_id prices =
           filter (\<lambda>c. c \<in> set offer_ids) (map (\<lambda>w. py_str (Kod w)) watch_remnants)"
    using seller_prices_loop_skus [of watch_remnants "[]" offer_ids]
    by (simp add: seller_create_prices_def)
  have d: "\<forall>prices. market_create_prices uni watch_remnants offer_ids = Inr prices \<longrightarrow>
         map price_id prices =
           filter (\<lambda>c. c \<in> set offer_ids) (map (\<lambda>w. py_str (Kod w)) watch_remnants)"
    using market_prices_loop_skus [of uni watch_remnants "[]" offer_ids]
    by (simp add: market_create_prices_def)
  from a b c d show ?thesis by blast
qed

text \<open>The feed with the code \<open>A1\<close> twice against the remote list \<open>A1\<close>: only the first
  record is matched.\<close>

theorem first_occurrence_wins_in_stocks_only_witness:
  "distinct [''A1'']
   \<and> matched
       [\<lparr>Kod = PStr ''A1'', Kolichestvo = PStr ''5'', Tsena = PStr ''100.00 x''\<rparr>,
        \<lparr>Kod = PStr ''A1'', Kolichestvo = PStr ''6'', Tsena = PStr ''200.00 x''\<rparr>]
       [''A1''] =
     [\<lparr>Kod = PStr ''A1'', Kolichestvo = PStr ''5'', Tsena = PStr ''100.00 x''\<rparr>]"
proof -
  let ?feed = "[\<lparr>Kod = PStr ''A1'', Kolichestvo = PStr ''5'', Tsena = PStr ''100.00 x''\<rparr>,
                \<lparr>Kod = PStr ''A1'', Kolichestvo = PStr ''6'', Tsena = PStr ''200.00 x''\<rparr>]"
  have h: "distinct [''A1'']" by simp
  have "matched ?feed [''A1''] =
          filter (\<lambda>w. py_str (Kod w) \<in> set [''A1'']) (first_occurrences [] ?feed)"
    using first_occurrence_wins_in_stocks_only [OF h, of ?feed] by blast
  also have "\<dots> = [\<lparr>Kod = PStr ''A1'', Kolichestvo = PStr ''5'', Tsena = PStr ''100.00 x''\<rparr>]"
    by simp
  finally show ?thesis using h by simp
qed

text \<open>
  Claim C4 as stated fails: the same feed gives two price entries for \<open>A1\<close> in both
  channels, and with the SKU twice in the remote list both records give a stock entry.
\<close>

theorem duplicate_codes_counterexample:
  "seller_create_prices
     [\<lparr>Kod = PStr ''A1'', Kolichestvo = PStr ''5'', Tsena = PStr ''100.00 x''\<rparr>,
      \<lparr>Kod = PStr ''A1'', Kolichestvo = PStr ''6'', Tsena = PStr ''200.00 x''\<rparr>]
     [''A1''] =
   Inr [\<lparr>auto_action_enabled = ''UNKNOWN'', currency_code = ''RUB'', price_offer_id = ''A1'',
         old_price = ''0'', price = ''100''\<rparr>,
        \<lparr>auto_action_enabled = ''UNKNOWN'', currency_code = ''RUB'', price_offer_id = ''A1'',
         old_price = ''0'', price = ''200''\<rparr>]
   \<and> market_create_prices (\<lambda>s. None)
     [\<lparr>Kod = PStr ''A1'', Kolichestvo = PStr ''5'', Tsena = PStr ''100.00 x''\<rparr>,
      \<lparr>Kod = PStr ''A1'', Kolichestvo = PStr ''6'', Tsena = PStr ''200.00 x''\<rparr>]
     [''A1''] =
   Inr [\<lparr>price_id = ''A1'', price_value = 100, currencyId = ''RUR''\<rparr>,
        \<lparr>price_id = ''A1'', price_value = 200, currencyId = ''RUR''\<rparr>]
   \<and> seller_create_stocks (\<lambda>s. None)
     [\<lparr>Kod = PStr ''A1'', Kolichestvo = PStr ''5'', Tsena = PStr ''100.00 x''\<rparr>,
      \<lparr>Kod = PStr ''A1'', Kolichestvo = PStr ''6'', Tsena = PStr ''200.00 x''\<rparr>]
     [''A1'', ''A1''] =
   Inr ([\<lparr>offer_id = ''A1'', stock = 5\<rparr>, \<lparr>offer_id = ''A1'', stock = 6\<rparr>], [])"
  by (simp add: seller_create_prices_def market_create_prices_def seller_create_stocks_def
      price_conversion_def re_sub_non_digits_def int_eval)

section \<open>A quantity that cannot be read\<close>

lemma int_of_str_error: "int_of_str uni s = Inl e \<Longrightarrow> e = ValueError"
  by (auto simp: int_of_str_def int_of_ascii_def split: list.splits if_splits option.splits)

lemma threshold_rule_error:
  "threshold_rule uni q = Inl e \<Longrightarrow> q \<noteq> PNone \<Longrightarrow> e = ValueError"
  by (cases q) (auto simp: threshold_rule_def split: if_splits dest: int_of_str_error)

lemma count_list_remove1:
  "count_list (remove1 a xs) c =
     (if a = c \<and> c \<in> set xs then count_list xs c - 1 else count_list xs c)"
  by (induction xs) auto

lemma count_list_pos: "0 < count_list xs c \<longleftrightarrow> c \<in> set xs"
  by (induction xs) auto

lemma seller_stocks_loop_raises:
  assumes "count_list (map (\<lambda>p. py_str (Kod p)) pre) (py_str (Kod w)) < count_list ids (py_str (Kod w))"
    and "threshold_rule uni (Kolichestvo w) = Inl e"
  shows "\<exists>e'. seller_stocks_loop uni (pre @ w # post) acc ids = Inl e'
              \<and> ((\<forall>p \<in> set pre. Kolichestvo p \<noteq> PNone) \<and> Kolichestvo w \<noteq> PNone \<longrightarrow> e' = ValueError)"
  using assms
proof (induction pre arbitrary: acc ids)
  case Nil
  then have "py_str (Kod w) \<in> set ids"
    using count_list_pos [of ids "py_str (Kod w)"] by simp
  then show ?case
    using Nil threshold_rule_error [of uni "Kolichestvo w" e]
    by (auto simp: seller_stocks_loop_step simp del: stocks_loop_simps)
next
  case (Cons p ps)
  let ?c = "py_str (Kod w)"
  let ?cp = "py_str (Kod p)"
  show ?case
  proof (cases "?cp \<in> set ids")
    case False
    then have "?cp \<noteq> ?c"
      using Cons.prems(1) count_list_pos [of ids ?c] by auto
    then have "count_list (map (\<lambda>p. py_str (Kod p)) ps) ?c < count_list ids ?c"
      using Cons.prems(1) by simp
    from Cons.IH [OF this Cons.prems(2), of acc] show ?thesis
      using False by (auto simp: seller_stocks_loop_step simp del: stocks_loop_simps)
  next
    case True
    show ?thesis
    proof (cases "threshold_rule uni (Kolichestvo p)")
      case (Inl e0)
      then show ?thesis
        using True threshold_rule_error [of uni "Kolichestvo p" e0]
        by (auto simp: seller_stocks_loop_step simp del: stocks_loop_simps)
    next
      case (Inr n)
      have "count_list (map (\<lambda>p. py_str (Kod p)) ps) ?c < count_list (remove1 ?cp ids) ?c"
        using Cons.prems(1) True by (auto simp: count_list_remove1)
      from Cons.IH [OF this Cons.prems(2)] show ?thesis
        using True Inr by (auto simp: seller_stocks_loop_step simp del: stocks_loop_simps)
    qed
  qed
qed

text \<open>
  Claim C10, as amended.  If a feed record whose code occurs in the remote SKU list more
  often than among the feed records before it (so the code is still in the list when the
  loop reaches the record; with no earlier record of that code this is: the code is in the
  list) has a quantity string that is neither \<open>>10\<close> nor \<open>1\<close> nor readable by \<open>int\<close>, then
  \<open>create_stocks\<close> raises and returns no stock list, in both channels alike, whatever
  follows in the feed: the one record aborts the reconciliation.  The exception is
  \<open>ValueError\<close> when no earlier record lacks its quantity.
\<close>

theorem create_stocks_aborts_on_first_malformed:
  assumes "count_list (map (\<lambda>p. py_str (Kod p)) before) (py_str (Kod w))
             < count_list offer_ids (py_str (Kod w))"
    and "Kolichestvo w = PStr q" and "q \<noteq> ''>10''" and "q \<noteq> ''1''"
    and "int_of_str uni q = Inl e"
  shows "(\<exists>e'. seller_create_stocks uni (before @ w # after) offer_ids = Inl e'
              \<and> market_create_stocks uni date (before @ w # after) offer_ids warehouse_id = Inl e')
       \<and> ((\<forall>p \<in> set before. Kolichestvo p \<noteq> PNone) \<longrightarrow>
            seller_create_stocks uni (before @ w # after) offer_ids = Inl ValueError
            \<and> market_create_stocks uni date (before @ w # after) offer_ids warehouse_id = Inl ValueError)"
proof -
  have t: "threshold_rule uni (Kolichestvo w) = Inl e"
    using assms(2-5) by (simp add: threshold_rule_def)
  obtain e' where l: "seller_stocks_loop uni (before @ w # after) [] offer_ids = Inl e'"
    and v: "(\<forall>p \<in> set before. Kolichestvo p \<noteq> PNone) \<and> Kolichestvo w \<noteq> PNone \<longrightarrow> e' = ValueError"
    using seller_stocks_loop_raises [OF assms(1) t] by blast
  have s: "seller_create_stocks uni (before @ w # after) offer_ids = Inl e'"
    using l by (simp add: seller_create_stocks_def)
  then have m: "market_create_stocks uni date (before @ w # after) offer_ids warehouse_id = Inl e'"
    by (simp add: market_create_stocks_seller)
  show ?thesis
    using s m v assms(2) by auto
qed

text \<open>The remote list holds \<open>A1\<close> twice; the second record of \<open>A1\<close> in the feed is still
  matched, and its quantity \<open>abc\<close> makes both channels raise.\<close>

theorem create_stocks_aborts_on_first_malformed_witness:
  "seller_create_stocks (\<lambda>s. None)
     [\<lparr>Kod = PStr ''A1'', Kolichestvo = PStr ''5'', Tsena = PStr ''100.00 x''\<rparr>,
      \<lparr>Kod = PStr ''A1'', Kolichestvo = PStr ''abc'', Tsena = PStr ''50.00 x''\<rparr>,
      \<lparr>Kod = PStr ''A2'', Kolichestvo = PStr ''7'', Tsena = PStr ''10.00 x''\<rparr>]
     [''A1'', ''A1'', ''A2''] = Inl ValueError
   \<and> market_create_stocks (\<lambda>s. None) ''T''
     [\<lparr>Kod = PStr ''A1'', Kolichestvo = PStr ''5'', Tsena = PStr ''100.00 x''\<rparr>,
      \<lparr>Kod = PStr ''A1'', Kolichestvo = PStr ''abc'', Tsena = PStr ''50.00 x''\<rparr>,
      \<lparr>Kod = PStr ''A2'', Kolichestvo = PStr ''7'', Tsena = PStr ''10.00 x''\<rparr>]
     [''A1'', ''A1'', ''A2''] ''W'' = Inl ValueError"
proof -
  let ?w = "\<lparr>Kod = PStr ''A1'', Kolichestvo = PStr ''abc'', Tsena = PStr ''50.00 x''\<rparr>"
  let ?before = "[\<lparr>Kod = PStr ''A1'', Kolichestvo = PStr ''5'', Tsena = PStr ''100.00 x''\<rparr>]"
  let ?after = "[\<lparr>Kod = PStr ''A2'', Kolichestvo = PStr ''7'', Tsena = PStr ''10.00 x''\<rparr>]"
  have h1: "count_list (map (\<lambda>p. py_str (Kod p)) ?before) (py_str (Kod ?w))
              < count_list [''A1'', ''A1'', ''A2''] (py_str (Kod ?w))"
    by simp
  have h2: "Kolichestvo ?w = PStr ''abc''" by simp
  have h3: "''abc'' \<noteq> ''>10''" "''abc'' \<noteq> ''1''" by simp_all
  have h4: "int_of_str (\<lambda>s. None) ''abc'' = Inl ValueError" by (simp add: int_eval)
  have h5: "\<forall>p \<in> set ?before. Kolichestvo p \<noteq> PNone" by simp
  show ?thesis
    using create_stocks_aborts_on_first_malformed [OF h1 h2 h3 h4, of ?after "''T''" "''W''"] h5
    by simp
qed

text \<open>
  Claim C10 as stated fails: a record with the quantity \<open>abc\<close> whose code is in the remote
  list, but which repeats the code of an earlier record, is skipped without its quantity
  being read, and both channels return a stock list.
\<close>

theorem malformed_duplicate_counterexample:
  "py_str (Kod \<lparr>Kod = PStr ''A1'', Kolichestvo = PStr ''abc'', Tsena = PStr ''200.00 x''\<rparr>)
     \<in> set [''A1'']
   \<and> int_of_str (\<lambda>s. None) ''abc'' = Inl ValueError
   \<and> seller_create_stocks (\<lambda>s. None)
       [\<lparr>Kod = PStr ''A1'', Kolichestvo = PStr ''5'', Tsena = PStr ''100.00 x''\<rparr>,
        \<lparr>Kod = PStr ''A1'', Kolichestvo = PStr ''abc'', Tsena = PStr ''200.00 x''\<rparr>]
       [''A1''] = Inr ([\<lparr>offer_id = ''A1'', stock = 5\<rparr>], [])
   \<and> market_create_stocks (\<lambda>s. None) ''T''
       [\<lparr>Kod = PStr ''A1'', Kolichestvo = PStr ''5'', Tsena = PStr ''100.00 x''\<rparr>,
        \<lparr>Kod = PStr ''A1'', Kolichestvo = PStr ''abc'', Tsena = PStr ''200.00 x''\<rparr>]
       [''A1''] ''W'' =
       Inr ([\<lparr>sku = ''A1'', warehouseId = ''W'',
              items = [\<lparr>item_count = 5, item_type = ''FIT'', updatedAt = ''T''\<rparr>]\<rparr>], [])"
  by (simp add: seller_create_stocks_def market_create_stocks_def int_eval)

section \<open>A price without digits\<close>

lemma price_conversion_empty:
  "\<forall>c \<in> set (takeWhile (\<lambda>c. c \<noteq> CHR ''.'') s). \<not> is_digit c \<Longrightarrow> price_conversion s = []"
  by (simp add: price_conversion_def re_sub_non_digits_def split_dot_first filter_empty_conv)

lemma seller_prices_loop_total:
  "(\<And>w. w \<in> set feed \<Longrightarrow> py_str (Kod w) \<in> set ids \<Longrightarrow> \<exists>s. Tsena w = PStr s)
   \<Longrightarrow> \<exists>ps. seller_prices_loop feed acc ids = Inr ps"
proof (induction feed arbitrary: acc)
  case Nil
  show ?case by simp
next
  case (Cons w ws)
  have ih: "\<And>acc. \<exists>ps. seller_prices_loop ws acc ids = Inr ps"
    using Cons.IH Cons.prems by simp
  show ?case
  proof (cases "py_str (Kod w) \<in> set ids")
    case True
    then obtain s where "Tsena w = PStr s" using Cons.prems by auto
    then show ?thesis using True ih by simp
  next
    case False
    then show ?thesis using ih by simp
  qed
qed

lemma seller_prices_loop_acc:
  "seller_prices_loop feed acc ids = Inr ps \<Longrightarrow> set acc \<subseteq> set ps"
proof (induction feed arbitrary: acc)
  case Nil
  then show ?case by simp
next
  case (Cons v vs)
  show ?case
  proof (cases "py_str (Kod v) \<in> set ids")
    case True
    then obtain p where
      "seller_prices_loop vs
         (acc @ [\<lparr>auto_action_enabled = ''UNKNOWN'', currency_code = ''RUB'',
                  price_offer_id = py_str (Kod v), old_price = ''0'', price = p\<rparr>]) ids = Inr ps"
      using Cons.prems by (auto split: sum.splits)
    from Cons.IH [OF this] show ?thesis by auto
  next
    case False
    then show ?thesis using Cons by simp
  qed
qed

lemma seller_prices_loop_mem:
  "seller_prices_loop feed acc ids = Inr ps \<Longrightarrow> w \<in> set feed \<Longrightarrow> py_str (Kod w) \<in> set ids
   \<Longrightarrow> Tsena w = PStr s
   \<Longrightarrow> \<lparr>auto_action_enabled = ''UNKNOWN'', currency_code = ''RUB'',
        price_offer_id = py_str (Kod w), old_price = ''0'',
        price = price_conversion s\<rparr> \<in> set ps"
proof (induction feed arbitrary: acc)
  case Nil
  then show ?case by simp
next
  case (Cons v vs)
  show ?case
  proof (cases "w = v")
    case True
    then have "seller_prices_loop vs
                 (acc @ [\<lparr>auto_action_enabled = ''UNKNOWN'', currency_code = ''RUB'',
                          price_offer_id = py_str (Kod w), old_price = ''0'',
                          price = price_conversion s\<rparr>]) ids = Inr ps"
      using Cons.prems by simp
    from seller_prices_loop_acc [OF this] show ?thesis by simp
  next
    case False
    then have "w \<in> set vs" using Cons.prems(2) by simp
    then show ?thesis
      using Cons.IH Cons.prems by (auto split: if_splits sum.splits)
  qed
qed

lemma market_prices_loop_raises:
  "w \<in> set feed \<Longrightarrow> py_str (Kod w) \<in> set ids \<Longrightarrow> Tsena w = PStr s \<Longrightarrow> price_conversion s = []
   \<Longrightarrow> \<exists>e. market_prices_loop uni feed acc ids = Inl e
          \<and> ((\<forall>v \<in> set feed. py_str (Kod v) \<in> set ids \<longrightarrow> (\<exists>t. Tsena v = PStr t)) \<longrightarrow> e = ValueError)"
proof (induction feed arbitrary: acc)
  case Nil
  then show ?case by simp
next
  case (Cons v vs)
  have empty: "int_of_str uni [] = Inl ValueError"
    by (simp add: int_of_str_def int_of_ascii_def strip_def)
  show ?case
  proof (cases "w = v")
    case True
    then show ?thesis using Cons.prems empty by simp
  next
    case False
    then have "w \<in> set vs" using Cons.prems(1) by simp
    from Cons.IH [OF this Cons.prems(2,3,4)]
    have ih: "\<And>acc. \<exists>e. market_prices_loop uni vs acc ids = Inl e
          \<and> ((\<forall>v \<in> set vs. py_str (Kod v) \<in> set ids \<longrightarrow> (\<exists>t. Tsena v = PStr t)) \<longrightarrow> e = ValueError)"
      by simp
    show ?thesis
    proof (cases "py_str (Kod v) \<in> set ids")
      case False
      then show ?thesis using ih [of acc] by auto
    next
      case True
      show ?thesis
      proof (cases "Tsena v")
        case (PStr t)
        show ?thesis
        proof (cases "int_of_str uni (price_conversion t)")
          case (Inl e0)
          then show ?thesis using True PStr int_of_str_error [OF Inl] by simp
        next
          case (Inr n)
          then show ?thesis
            using True PStr
              ih [of "acc @ [\<lparr>price_id = py_str (Kod v), price_value = n, currencyId = ''RUR''\<rparr>]"]
            by auto
        qed
      next
        case (PInt i)
        then show ?thesis using True by auto
      next
        case PNone
        then show ?thesis using True by auto
      qed
    qed
  qed
qed

text \<open>
  Claim C7, as amended.  For every price string with no digit before the first dot,
  \<open>price_conversion\<close> yields the empty string.  The two callers differ.  In the seller
  channel \<open>create_prices\<close> makes no check: when the prices of the records in the remote list
  are strings it returns, and the record has a price entry whose price is the empty string.
  In the market channel \<open>create_prices\<close> passes the result to \<open>int\<close>, which raises
  \<open>ValueError\<close> on the empty string, so the call returns no price list.
\<close>

theorem empty_price_seller_emits_market_raises:
  assumes "w \<in> set watch_remnants" and "py_str (Kod w) \<in> set offer_ids"
    and "Tsena w = PStr s"
    and "\<forall>c \<in> set (takeWhile (\<lambda>c. c \<noteq> CHR ''.'') s). c \<notin> set ''0123456789''"
    and "\<forall>v \<in> set watch_remnants. py_str (Kod v) \<in> set offer_ids \<longrightarrow> (\<exists>t. Tsena v = PStr t)"
  shows "price_conversion s = []
     \<and> (\<exists>prices. seller_create_prices watch_remnants offer_ids = Inr prices
           \<and> \<lparr>auto_action_enabled = ''UNKNOWN'', currency_code = ''RUB'',
               price_offer_id = py_str (Kod w), old_price = ''0'', price = []\<rparr> \<in> set prices)
     \<and> market_create_prices uni watch_remnants offer_ids = Inl ValueError"
proof -
  have e: "price_conversion s = []"
    using assms(4) by (intro price_conversion_empty) (simp add: is_digit_def)
  obtain prices where p: "seller_create_prices watch_remnants offer_ids = Inr prices"
    using seller_prices_loop_total [of watch_remnants offer_ids "[]"] assms(5)
    by (auto simp: seller_create_prices_def)
  have m: "\<lparr>auto_action_enabled = ''UNKNOWN'', currency_code = ''RUB'',
               price_offer_id = py_str (Kod w), old_price = ''0'', price = []\<rparr> \<in> set prices"
    using seller_prices_loop_mem [OF p [unfolded seller_create_prices_def] assms(1,2,3)] e by simp
  have r: "market_create_prices uni watch_remnants offer_ids = Inl ValueError"
    using market_prices_loop_raises [OF assms(1,2,3) e, of uni "[]"] assms(5)
    by (auto simp: market_create_prices_def)
  from e p m r show ?thesis by blast
qed

text \<open>One record, in the remote list, with the price \<open>n/a\<close>.\<close>

theorem empty_price_seller_emits_market_raises_witness:
  "price_conversion ''n/a'' = []
   \<and> seller_create_prices
       [\<lparr>Kod = PStr ''A1'', Kolichestvo = PStr ''5'', Tsena = PStr ''n/a''\<rparr>] [''A1''] =
     Inr [\<lparr>auto_action_enabled = ''UNKNOWN'', currency_code = ''RUB'',
           price_offer_id = ''A1'', old_price = ''0'', price = []\<rparr>]
   \<and> market_create_prices (\<lambda>s. None)
       [\<lparr>Kod = PStr ''A1'', Kolichestvo = PStr ''5'', Tsena = PStr ''n/a''\<rparr>] [''A1''] =
     Inl ValueError"
proof -
  let ?w = "\<lparr>Kod = PStr ''A1'', Kolichestvo = PStr ''5'', Tsena = PStr ''n/a''\<rparr>"
  have h1: "?w \<in> set [?w]" by simp
  have h2: "py_str (Kod ?w) \<in> set [''A1'']" by simp
  have h3: "Tsena ?w = PStr ''n/a''" by simp
  have h4: "\<forall>c \<in> set (takeWhile (\<lambda>c. c \<noteq> CHR ''.'') ''n/a''). c \<notin> set ''0123456789''" by simp
  have h5: "\<forall>v \<in> set [?w]. py_str (Kod v) \<in> set [''A1''] \<longrightarrow> (\<exists>t. Tsena v = PStr t)" by simp
  have s: "seller_create_prices [?w] [''A1''] =
     Inr [\<lparr>auto_action_enabled = ''UNKNOWN'', currency_code = ''RUB'',
           price_offer_id = ''A1'', old_price = ''0'', price = price_conversion ''n/a''\<rparr>]"
    by (simp add: seller_create_prices_def)
  show ?thesis
    using empty_price_seller_emits_market_raises [OF h1 h2 h3 h4 h5] s by simp
qed

text \<open>
  Claim C7 as stated fails: the seller channel returns normally and emits the empty string
  as the price of the record.
\<close>

theorem empty_price_emitted_counterexample:
  "price_conversion ''n/a'' = []
   \<and> seller_create_prices
       [\<lparr>Kod = PStr ''A1'', Kolichestvo = PStr ''5'', Tsena = PStr ''n/a''\<rparr>] [''A1''] =
     Inr [\<lparr>auto_action_enabled = ''UNKNOWN'', currency_code = ''RUB'',
           price_offer_id = ''A1'', old_price = ''0'', price = []\<rparr>]"
  by (simp add: seller_create_prices_def price_conversion_def re_sub_non_digits_def is_digit_def)

section \<open>What \<open>upload_stocks\<close> returns\<close>

lemma for_each_total: "(\<And>b. \<exists>r. send b = Inr r) \<Longrightarrow> for_each send bs = Inr ()"
proof (induction bs)
  case Nil
  show ?case by simp
next
  case (Cons b bs)
  obtain r where "send b = Inr r" using Cons.prems by blast
  then show ?case using Cons by simp
qed

text \<open>
  Claim C9.  Whenever \<open>upload_stocks\<close> returns, it returns the pair \<open>(not_empty, stocks)\<close>
  where \<open>stocks\<close> is the whole list that \<open>create_stocks\<close> built for the feed and the remote
  SKU list, and \<open>not_empty\<close> is the sublist of the entries whose count (\<open>stock\<close> in seller,
  the count of the first and only item in market) is not zero, in the order they have in
  \<open>stocks\<close>.  It does return whenever \<open>create_stocks\<close> returns and every submission is
  answered.
\<close>

theorem upload_stocks_returns_non_zero_and_all:
  "(seller_upload_stocks uni update_stocks watch_remnants offer_ids = Inr (not_empty, stocks) \<longrightarrow>
      (\<exists>rest. seller_create_stocks uni watch_remnants offer_ids = Inr (stocks, rest))
      \<and> not_empty = filter (\<lambda>s. stock s \<noteq> 0) stocks)
   \<and> (market_upload_stocks uni mupdate_stocks date watch_remnants offer_ids warehouse_id =
        Inr (mnot_empty, mstocks) \<longrightarrow>
      (\<exists>rest. market_create_stocks uni date watch_remnants offer_ids warehouse_id = Inr (mstocks, rest))
      \<and> mnot_empty = filter (\<lambda>s. item_count (items s ! 0) \<noteq> 0) mstocks
      \<and> (\<forall>s \<in> set mstocks. length (items s) = 1))
   \<and> ((\<forall>b. \<exists>r. update_stocks b = Inr r)
        \<and> seller_create_stocks uni watch_remnants offer_ids = Inr (stocks, rest) \<longrightarrow>
      seller_upload_stocks uni update_stocks watch_remnants offer_ids =
        Inr (filter (\<lambda>s. stock s \<noteq> 0) stocks, stocks))
   \<and> ((\<forall>b. \<exists>r. mupdate_stocks b = Inr r)
        \<and> market_create_stocks uni date watch_remnants offer_ids warehouse_id = Inr (mstocks, rest) \<longrightarrow>
      market_upload_stocks uni mupdate_stocks date watch_remnants offer_ids warehouse_id =
        Inr (filter (\<lambda>s. item_count (items s ! 0) \<noteq> 0) mstocks, mstocks))"
proof -
  have a: "seller_upload_stocks uni update_stocks watch_remnants offer_ids = Inr (not_empty, stocks) \<longrightarrow>
      (\<exists>rest. seller_create_stocks uni watch_remnants offer_ids = Inr (stocks, rest))
      \<and> not_empty = filter (\<lambda>s. stock s \<noteq> 0) stocks"
    by (auto simp: seller_upload_stocks_def Let_def split: sum.splits prod.splits)
  have b1: "market_upload_stocks uni mupdate_stocks date watch_remnants offer_ids warehouse_id =
        Inr (mnot_empty, mstocks) \<longrightarrow>
      (\<exists>rest. market_create_stocks uni date watch_remnants offer_ids warehouse_id = Inr (mstocks, rest))
      \<and> mnot_empty = filter (\<lambda>s. item_count (items s ! 0) \<noteq> 0) mstocks"
    by (auto simp: market_upload_stocks_def Let_def split: sum.splits prod.splits)
  have b2: "(\<exists>rest. market_create_stocks uni date watch_remnants offer_ids warehouse_id = Inr (mstocks, rest))
             \<longrightarrow> (\<forall>s \<in> set mstocks. length (items s) = 1)"
    by (auto simp: market_create_stocks_seller market_entry_def split: sum.splits prod.splits)
  have c: "(\<forall>b. \<exists>r. update_stocks b = Inr r)
        \<and> seller_create_stocks uni watch_remnants offer_ids = Inr (stocks, rest) \<longrightarrow>
      seller_upload_stocks uni update_stocks watch_remnants offer_ids =
        Inr (filter (\<lambda>s. stock s \<noteq> 0) stocks, stocks)"
    using for_each_total [of update_stocks]
    by (simp add: seller_upload_stocks_def divide_lst_def)
  have d: "(\<forall>b. \<exists>r. mupdate_stocks b = Inr r)
        \<and> market_create_stocks uni date watch_remnants offer_ids warehouse_id = Inr (mstocks, rest) \<longrightarrow>
      market_upload_stocks uni mupdate_stocks date watch_remnants offer_ids warehouse_id =
        Inr (filter (\<lambda>s. item_count (items s ! 0) \<noteq> 0) mstocks, mstocks)"
    using for_each_total [of mupdate_stocks]
    by (simp add: market_upload_stocks_def divide_lst_def)
  from a b1 b2 c d show ?thesis by blast
qed

text \<open>The feed \<open>A1\<close> (more than ten), \<open>A2\<close> (one unit) against the remote list \<open>A1\<close>, \<open>A3\<close>,
  every submission answered: \<open>A1\<close> is in stock, \<open>A3\<close> is zeroed.\<close>

theorem upload_stocks_returns_non_zero_and_all_witness:
  "seller_upload_stocks (\<lambda>s. None) (\<lambda>b. Inr ())
     [\<lparr>Kod = PStr ''A1'', Kolichestvo = PStr ''>10'', Tsena = PStr ''100.00 x''\<rparr>,
      \<lparr>Kod = PStr ''A2'', Kolichestvo = PStr ''1'', Tsena = PStr ''50.00 x''\<rparr>]
     [''A1'', ''A3''] =
   Inr ([\<lparr>offer_id = ''A1'', stock = 100\<rparr>],
        [\<lparr>offer_id = ''A1'', stock = 100\<rparr>, \<lparr>offer_id = ''A3'', stock = 0\<rparr>])
   \<and> market_upload_stocks (\<lambda>s. None) (\<lambda>b. Inr ()) ''T''
     [\<lparr>Kod = PStr ''A1'', Kolichestvo = PStr ''>10'', Tsena = PStr ''100.00 x''\<rparr>,
      \<lparr>Kod = PStr ''A2'', Kolichestvo = PStr ''1'', Tsena = PStr ''50.00 x''\<rparr>]
     [''A1'', ''A3''] ''W'' =
   Inr ([market_entry ''W'' ''T'' \<lparr>offer_id = ''A1'', stock = 100\<rparr>],
        [market_entry ''W'' ''T'' \<lparr>offer_id = ''A1'', stock = 100\<rparr>,
         market_entry ''W'' ''T'' \<lparr>offer_id = ''A3'', stock = 0\<rparr>])"
proof -
  let ?feed = "[\<lparr>Kod = PStr ''A1'', Kolichestvo = PStr ''>10'', Tsena = PStr ''100.00 x''\<rparr>,
                \<lparr>Kod = PStr ''A2'', Kolichestvo = PStr ''1'', Tsena = PStr ''50.00 x''\<rparr>]"
  let ?stocks = "[\<lparr>offer_id = ''A1'', stock = 100\<rparr>, \<lparr>offer_id = ''A3'', stock = 0\<rparr>]"
  have u: "\<forall>b :: seller_stock list. \<exists>r. (\<lambda>b. Inr ()) b = (Inr r :: error + unit)" by simp
  have mu: "\<forall>b :: market_stock list. \<exists>r. (\<lambda>b. Inr ()) b = (Inr r :: error + unit)" by simp
  have s: "seller_create_stocks (\<lambda>s. None) ?feed [''A1'', ''A3''] = Inr (?stocks, [''A3''])"
    by (simp add: seller_create_stocks_def)
  have m: "market_create_stocks (\<lambda>s. None) ''T'' ?feed [''A1'', ''A3''] ''W'' =
             Inr (map (market_entry ''W'' ''T'') ?stocks, [''A3''])"
    by (simp add: market_create_stocks_seller s)
  note inst = upload_stocks_returns_non_zero_and_all
      [of "\<lambda>s. None" "\<lambda>b. Inr ()" ?feed "[''A1'', ''A3'']" _ ?stocks "\<lambda>b. Inr ()" "''T''" "''W''" _
          "map (market_entry ''W'' ''T'') ?stocks" "[''A3'']"]
  have a: "seller_upload_stocks (\<lambda>s. None) (\<lambda>b. Inr ()) ?feed [''A1'', ''A3''] =
             Inr (filter (\<lambda>s. stock s \<noteq> 0) ?stocks, ?stocks)"
    using inst u s by blast
  have b: "market_upload_stocks (\<lambda>s. None) (\<lambda>b. Inr ()) ''T'' ?feed [''A1'', ''A3''] ''W'' =
             Inr (filter (\<lambda>s. item_count (items s ! 0) \<noteq> 0) (map (market_entry ''W'' ''T'') ?stocks),
                  map (market_entry ''W'' ''T'') ?stocks)"
    using inst mu m by blast
  have c: "filter (\<lambda>s. stock s \<noteq> 0) ?stocks = [\<lparr>offer_id = ''A1'', stock = 100\<rparr>]"
    by simp
  have d: "filter (\<lambda>s. item_count (items s ! 0) \<noteq> 0) (map (market_entry ''W'' ''T'') ?stocks) =
             [market_entry ''W'' ''T'' \<lparr>offer_id = ''A1'', stock = 100\<rparr>]"
    by (simp add: market_entry_def)
  show ?thesis
    using a b unfolding c d by simp
qed

section \<open>The list \<open>offer_ids\<close> after \<open>create_stocks\<close>, and \<open>main\<close> of seller.py\<close>

lemma set_unmatched: "set (unmatched feed ids) \<subseteq> set ids"
proof (induction feed arbitrary: ids)
  case Nil
  show ?case by simp
next
  case (Cons w ws)
  show ?case
  proof (cases "py_str (Kod w) \<in> set ids")
    case True
    have "set (unmatched ws (remove1 (py_str (Kod w)) ids)) \<subseteq> set (remove1 (py_str (Kod w)) ids)"
      by (rule Cons)
    also have "\<dots> \<subseteq> set ids"
      by (rule set_remove1_subset)
    finally show ?thesis using True by simp
  next
    case False
    then show ?thesis using Cons [of ids] by simp
  qed
qed

lemma unmatched_no_feed_code:
  "distinct ids \<Longrightarrow> w \<in> set feed \<Longrightarrow> py_str (Kod w) \<notin> set (unmatched feed ids)"
proof (induction feed arbitrary: ids)
  case Nil
  then show ?case by simp
next
  case (Cons v vs)
  let ?c = "py_str (Kod v)"
  show ?case
  proof (cases "?c \<in> set ids")
    case True
    have d: "distinct (remove1 ?c ids)" using Cons.prems(1) by simp
    have "set (unmatched vs (remove1 ?c ids)) \<subseteq> set ids - {?c}"
      using set_unmatched [of vs "remove1 ?c ids"] Cons.prems(1) by simp
    then show ?thesis
      using True Cons.IH [OF d] Cons.prems(2) by auto
  next
    case False
    then show ?thesis
      using Cons.IH [OF Cons.prems(1)] Cons.prems(2) set_unmatched [of vs ids] by auto
  qed
qed

lemma seller_prices_loop_none:
  "(\<And>w. w \<in> set feed \<Longrightarrow> py_str (Kod w) \<notin> set ids) \<Longrightarrow> seller_prices_loop feed acc ids = Inr acc"
  by (induction feed arbitrary: acc) simp_all

text \<open>With a remote SKU list without duplicates, \<open>main\<close> of seller.py never computes a price
  entry: after \<open>create_stocks\<close> the list holds no code of the feed any more.\<close>

lemma seller_main_no_prices:
  assumes "distinct offer_ids"
    and "seller_main uni update_stocks update_price watch_remnants offer_ids = Inr (stocks, prices)"
  shows "prices = []"
proof -
  obtain rest where s: "seller_create_stocks uni watch_remnants offer_ids = Inr (stocks, rest)"
    and p: "seller_create_prices watch_remnants rest = Inr prices"
    using assms(2) by (auto simp: seller_main_def split: sum.splits prod.splits)
  have "rest = unmatched watch_remnants offer_ids"
    by (rule seller_create_stocks_Inr(1) [OF s])
  then have "\<And>w. w \<in> set watch_remnants \<Longrightarrow> py_str (Kod w) \<notin> set rest"
    using unmatched_no_feed_code [OF assms(1)] by simp
  from seller_prices_loop_none [OF this, of watch_remnants "[]"] p show ?thesis
    by (simp add: seller_create_prices_def)
qed

text \<open>
  Claim C2 (the price entries that \<open>main\<close> computes have as SKU set the intersection of the
  feed codes and the remote SKUs) does not hold of the code.  At the feed \<open>A1\<close>, \<open>A2\<close> and
  the remote list \<open>A1\<close>, \<open>A3\<close>, with every submission answered, \<open>main\<close> of seller.py computes
  the stock entries of \<open>A1\<close> and \<open>A3\<close> and then no price entry at all, where the intersection
  is \<open>A1\<close>; \<open>create_prices\<close> on the list as it was fetched gives the price entry of \<open>A1\<close>.
\<close>

theorem seller_main_prices_empty_at_scenario:
  "seller_main (\<lambda>s. None) (\<lambda>b. Inr ()) (\<lambda>b. Inr ())
     [\<lparr>Kod = PStr ''A1'', Kolichestvo = PStr ''>10'', Tsena = PStr ''100.00 x''\<rparr>,
      \<lparr>Kod = PStr ''A2'', Kolichestvo = PStr ''1'', Tsena = PStr ''50.00 x''\<rparr>]
     [''A1'', ''A3''] =
   Inr ([\<lparr>offer_id = ''A1'', stock = 100\<rparr>, \<lparr>offer_id = ''A3'', stock = 0\<rparr>], [])
   \<and> seller_create_prices
     [\<lparr>Kod = PStr ''A1'', Kolichestvo = PStr ''>10'', Tsena = PStr ''100.00 x''\<rparr>,
      \<lparr>Kod = PStr ''A2'', Kolichestvo = PStr ''1'', Tsena = PStr ''50.00 x''\<rparr>]
     [''A1'', ''A3''] =
   Inr [\<lparr>auto_action_enabled = ''UNKNOWN'', currency_code = ''RUB'', price_offer_id = ''A1'',
         old_price = ''0'', price = ''100''\<rparr>]"
  by (simp add: seller_main_def seller_create_stocks_def seller_create_prices_def
      divide_lst_def divide_from_step price_conversion_def re_sub_non_digits_def is_digit_def)

text \<open>
  Claim C3 (\<open>create_stocks\<close> leaves the caller's list \<open>offer_ids\<close> as it was) does not hold of
  the code.  At the same feed and remote list, the list holds only \<open>A3\<close> when \<open>create_stocks\<close>
  returns, in both channels.
\<close>

theorem create_stocks_mutates_offer_ids_at_scenario:
  "seller_create_stocks (\<lambda>s. None)
     [\<lparr>Kod = PStr ''A1'', Kolichestvo = PStr ''>10'', Tsena = PStr ''100.00 x''\<rparr>,
      \<lparr>Kod = PStr ''A2'', Kolichestvo = PStr ''1'', Tsena = PStr ''50.00 x''\<rparr>]
     [''A1'', ''A3''] =
   Inr ([\<lparr>offer_id = ''A1'', stock = 100\<rparr>, \<lparr>offer_id = ''A3'', stock = 0\<rparr>], [''A3''])
   \<and> market_create_stocks (\<lambda>s. None) ''T''
     [\<lparr>Kod = PStr ''A1'', Kolichestvo = PStr ''>10'', Tsena = PStr ''100.00 x''\<rparr>,
      \<lparr>Kod = PStr ''A2'', Kolichestvo = PStr ''1'', Tsena = PStr ''50.00 x''\<rparr>]
     [''A1'', ''A3''] ''W'' =
   Inr ([\<lparr>sku = ''A1'', warehouseId = ''W'',
          items = [\<lparr>item_count = 100, item_type = ''FIT'', updatedAt = ''T''\<rparr>]\<rparr>,
         \<lparr>sku = ''A3'', warehouseId = ''W'',
          items = [\<lparr>item_count = 0, item_type = ''FIT'', updatedAt = ''T''\<rparr>]\<rparr>], [''A3''])
   \<and> [''A3''] \<noteq> [''A1'', ''A3'']"
  by (simp add: seller_create_stocks_def market_create_stocks_def)

end
